theory Spec2Isabelle
  imports Complex_Main "HOL-Library.Log_Nat" "HOL-Library.List_Lexorder" "HOL-Library.Char_ord"
begin

section \<open>Data model\<close>

text \<open>
  The tables of the store, as the routes use them. A JavaScript \<open>Date\<close> is its number of
  milliseconds since the epoch, read in UTC. Columns that no modelled route branches on
  (password hash, avatar, team name, timestamps) are left out.
\<close>

type_synonym Date = int

datatype UserRole = REPORTER | CHAPTER_LEAD | TRIBE_LEAD

datatype AttendanceStatus = OFFICE | REMOTE | ABSENT | VACATION | OFF

record User =
  u_id :: string
  u_email :: string
  u_name :: string
  u_role :: UserRole
  u_chapterLeadId :: "string option"

record AttendanceRecord =
  a_id :: string
  a_userId :: string
  a_date :: Date
  a_status :: AttendanceStatus
  a_notes :: "string option"

record Delegation =
  d_id :: string
  d_delegatorId :: string
  d_delegateId :: string
  d_startDate :: Date
  d_endDate :: Date
  d_isActive :: bool

record OfficeCapacity =
  c_dayOfWeek :: string
  c_capacity :: int

record Db =
  users :: "User list"
  attendanceRecord :: "AttendanceRecord list"
  delegation :: "Delegation list"
  officeCapacity :: "OfficeCapacity list"

text \<open>The outcome kinds of the routes; \<open>statusCode\<close> is the HTTP status \<open>apiError\<close> sends.\<close>

datatype ApiError = NotAuthenticated | NotAuthorized | NotFound | InvalidArgument | Internal

fun statusCode :: "ApiError \<Rightarrow> nat" where
  "statusCode NotAuthenticated = 401"
| "statusCode NotAuthorized = 403"
| "statusCode NotFound = 404"
| "statusCode InvalidArgument = 400"
| "statusCode Internal = 500"

section \<open>Authentication helper (lib/auth-helpers)\<close>

definition user_findUnique_id :: "Db \<Rightarrow> string \<Rightarrow> User option" where
  "user_findUnique_id db i = find (\<lambda>u. u_id u = i) (users db)"

definition user_findUnique_email :: "Db \<Rightarrow> string \<Rightarrow> User option" where
  "user_findUnique_email db e = find (\<lambda>u. u_email u = e) (users db)"

text \<open>
  \<open>getUserFromRequest\<close>: the \<open>x-user-email\<close> header, absent or empty, gives no user;
  otherwise the user with that email, if any.
\<close>

definition getUserFromRequest :: "Db \<Rightarrow> string option \<Rightarrow> User option" where
  "getUserFromRequest db userEmail =
     (case userEmail of
        None \<Rightarrow> None
      | Some e \<Rightarrow> if e = [] then None else user_findUnique_email db e)"

section \<open>Permissions (lib/permissions)\<close>

definition isReporter :: "User \<Rightarrow> bool" where
  "isReporter user = (u_role user = REPORTER)"

definition isChapterLead :: "User \<Rightarrow> bool" where
  "isChapterLead user = (u_role user = CHAPTER_LEAD)"

definition isTribeLead :: "User \<Rightarrow> bool" where
  "isTribeLead user = (u_role user = TRIBE_LEAD)"

text \<open>
  \<open>getAccessibleUserIds\<close>: every user id for a Tribe Lead; the lead's own id followed by
  the ids of the users whose \<open>chapterLeadId\<close> is the lead for a Chapter Lead; the own id
  otherwise.
\<close>

definition getAccessibleUserIds :: "Db \<Rightarrow> User \<Rightarrow> string list" where
  "getAccessibleUserIds db currentUser =
     (if isTribeLead currentUser then map u_id (users db)
      else if isChapterLead currentUser then
        u_id currentUser #
          map u_id (filter (\<lambda>u. u_chapterLeadId u = Some (u_id currentUser)) (users db))
      else [u_id currentUser])"

text \<open>
  \<open>canAllocateAttendance\<close>: self, then Tribe Lead, then a Chapter Lead for a target whose
  \<open>chapterLeadId\<close> is the lead; a target that does not exist has no \<open>chapterLeadId\<close>, and
  the comparison with the lead's id is false.
\<close>

definition canAllocateAttendance :: "Db \<Rightarrow> User \<Rightarrow> string \<Rightarrow> bool" where
  "canAllocateAttendance db allocator targetUserId =
     (if u_id allocator = targetUserId then True
      else if isTribeLead allocator then True
      else if isChapterLead allocator then
        (case user_findUnique_id db targetUserId of
           None \<Rightarrow> False
         | Some targetUser \<Rightarrow> u_chapterLeadId targetUser = Some (u_id allocator))
      else False)"

section \<open>Delegations (api/delegations)\<close>

text \<open>
  \<open>GET /api/delegations/active\<close>: the first delegation of the user that is flagged active
  and whose window contains \<open>now\<close>.
\<close>

definition currentlyEffective :: "Date \<Rightarrow> string \<Rightarrow> Delegation \<Rightarrow> bool" where
  "currentlyEffective now uid d =
     (d_delegateId d = uid \<and> d_isActive d \<and> d_startDate d \<le> now \<and> now \<le> d_endDate d)"

definition activeDelegation :: "Db \<Rightarrow> Date \<Rightarrow> User \<Rightarrow> Delegation option" where
  "activeDelegation db now user = find (currentlyEffective now (u_id user)) (delegation db)"

definition delegations_active_GET ::
  "Db \<Rightarrow> Date \<Rightarrow> string option \<Rightarrow> ApiError + (bool \<times> Delegation option)" where
  "delegations_active_GET db now hdr =
     (case getUserFromRequest db hdr of
        None \<Rightarrow> Inl NotAuthenticated
      | Some user \<Rightarrow>
          (let activeDeleg = activeDelegation db now user
           in Inr (activeDeleg \<noteq> None, activeDeleg)))"

section \<open>Attendance ledger (api/attendance)\<close>

text \<open>
  The validated query of \<open>GET /api/attendance\<close>. An empty \<open>userId\<close> parameter has become
  \<open>undefined\<close> before validation; \<open>startDate\<close> and \<open>endDate\<close> are the values of
  \<open>new Date(...)\<close>. A query that fails validation is \<open>None\<close> at the route.
\<close>

record AttendanceQuery =
  q_userId :: "string option"
  q_startDate :: "Date option"
  q_endDate :: "Date option"
  q_status :: "AttendanceStatus option"

definition truthy :: "string option \<Rightarrow> bool" where
  "truthy s = (case s of None \<Rightarrow> False | Some x \<Rightarrow> x \<noteq> [])"

definition whereDate :: "Date option \<Rightarrow> Date option \<Rightarrow> AttendanceRecord \<Rightarrow> bool" where
  "whereDate startDate endDate r =
     ((case startDate of None \<Rightarrow> True | Some gte \<Rightarrow> gte \<le> a_date r) \<and>
      (case endDate of None \<Rightarrow> True | Some lte \<Rightarrow> a_date r \<le> lte))"

definition whereStatus :: "AttendanceStatus option \<Rightarrow> AttendanceRecord \<Rightarrow> bool" where
  "whereStatus status r = (case status of None \<Rightarrow> True | Some s \<Rightarrow> a_status r = s)"

text \<open>\<open>include: { user: ... }\<close>: each record comes with its owner's row, if there is one.\<close>

definition includeUser :: "Db \<Rightarrow> AttendanceRecord \<Rightarrow> AttendanceRecord \<times> User option" where
  "includeUser db r = (r, user_findUnique_id db (a_userId r))"

text \<open>
  \<open>GET /api/attendance\<close>. The where clause starts as \<open>userId in accessibleUserIds\<close>; a
  requested \<open>userId\<close> outside that list is refused, one inside replaces the clause. The
  order is \<open>date desc\<close>.
\<close>

definition attendance_GET ::
  "Db \<Rightarrow> string option \<Rightarrow> AttendanceQuery option \<Rightarrow>
     ApiError + (AttendanceRecord \<times> User option) list" where
  "attendance_GET db hdr query =
     (case getUserFromRequest db hdr of
        None \<Rightarrow> Inl NotAuthenticated
      | Some user \<Rightarrow>
          (case query of
             None \<Rightarrow> Inl InvalidArgument
           | Some q \<Rightarrow>
               (let accessibleUserIds = getAccessibleUserIds db user
                in if truthy (q_userId q) \<and> the (q_userId q) \<notin> set accessibleUserIds
                   then Inl NotAuthorized
                   else
                     (let whereUserId =
                            (\<lambda>r. if truthy (q_userId q) then a_userId r = the (q_userId q)
                                 else a_userId r \<in> set accessibleUserIds);
                          records =
                            filter (\<lambda>r. whereUserId r \<and>
                                         whereDate (q_startDate q) (q_endDate q) r \<and>
                                         whereStatus (q_status q) r)
                              (attendanceRecord db)
                      in Inr (map (includeUser db) (sort_key (\<lambda>r. - a_date r) records))))))"

text \<open>
  The body of a write. \<open>notes || null\<close> stores the empty note as no note.
\<close>

record CreateAttendance =
  p_userId :: string
  p_date :: Date
  p_status :: AttendanceStatus
  p_notes :: "string option"

definition notesOrNull :: "string option \<Rightarrow> string option" where
  "notesOrNull notes = (if truthy notes then notes else None)"

definition sameKey :: "string \<Rightarrow> Date \<Rightarrow> AttendanceRecord \<Rightarrow> bool" where
  "sameKey userId date r = (a_userId r = userId \<and> a_date r = date)"

text \<open>
  \<open>prisma.attendanceRecord.upsert\<close> on the unique key \<open>(userId, date)\<close>: the row with the
  key gets the new status and notes; without such a row one is created, under the id the
  store generates (\<open>newId\<close>), and the creation fails when \<open>userId\<close> is not a user (the
  README declares \<open>userId\<close> a foreign key to users).
\<close>

definition attendanceRecord_upsert ::
  "Db \<Rightarrow> string \<Rightarrow> string \<Rightarrow> Date \<Rightarrow> AttendanceStatus \<Rightarrow> string option \<Rightarrow>
     (AttendanceRecord \<times> Db) option" where
  "attendanceRecord_upsert db newId userId date status notes =
     (case find (sameKey userId date) (attendanceRecord db) of
        Some old \<Rightarrow>
          Some (old\<lparr>a_status := status, a_notes := notes\<rparr>,
                db\<lparr>attendanceRecord :=
                      map (\<lambda>r. if sameKey userId date r
                                then r\<lparr>a_status := status, a_notes := notes\<rparr> else r)
                        (attendanceRecord db)\<rparr>)
      | None \<Rightarrow>
          (if user_findUnique_id db userId = None then None
           else
             (let created = \<lparr>a_id = newId, a_userId = userId, a_date = date,
                              a_status = status, a_notes = notes\<rparr>
              in Some (created,
                       db\<lparr>attendanceRecord := attendanceRecord db @ [created]\<rparr>))))"

text \<open>
  \<open>POST /api/attendance\<close>: authentication, validation (statuses office, remote, absent,
  vacation), \<open>canAllocateAttendance\<close>, then the upsert; an exception of the store is the
  500 of the \<open>catch\<close>. The result is the response and the store afterwards.
\<close>

definition attendance_POST ::
  "Db \<Rightarrow> string \<Rightarrow> string option \<Rightarrow> CreateAttendance option \<Rightarrow>
     (ApiError + (AttendanceRecord \<times> User option)) \<times> Db" where
  "attendance_POST db newId hdr body =
     (case getUserFromRequest db hdr of
        None \<Rightarrow> (Inl NotAuthenticated, db)
      | Some user \<Rightarrow>
          (case body of
             None \<Rightarrow> (Inl InvalidArgument, db)
           | Some b \<Rightarrow>
               if p_status b \<notin> {OFFICE, REMOTE, ABSENT, VACATION}
               then (Inl InvalidArgument, db)
               else if \<not> canAllocateAttendance db user (p_userId b)
               then (Inl NotAuthorized, db)
               else
                 (case attendanceRecord_upsert db newId (p_userId b) (p_date b)
                         (p_status b) (notesOrNull (p_notes b)) of
                    None \<Rightarrow> (Inl Internal, db)
                  | Some (record, db') \<Rightarrow> (Inr (includeUser db' record), db'))))"

text \<open>
  \<open>POST /api/attendance/allocate\<close>: reporters are refused first; the body admits the
  statuses office, remote and off; the own id is refused; then \<open>canAllocateAttendance\<close>,
  the existence of the target, the direct-report check for a Chapter Lead, and the upsert.
\<close>

definition attendance_allocate_POST ::
  "Db \<Rightarrow> string \<Rightarrow> string option \<Rightarrow> CreateAttendance option \<Rightarrow>
     (ApiError + ((AttendanceRecord \<times> User option) \<times> User)) \<times> Db" where
  "attendance_allocate_POST db newId hdr body =
     (case getUserFromRequest db hdr of
        None \<Rightarrow> (Inl NotAuthenticated, db)
      | Some user \<Rightarrow>
          if u_role user = REPORTER then (Inl NotAuthorized, db)
          else
            (case body of
               None \<Rightarrow> (Inl InvalidArgument, db)
             | Some b \<Rightarrow>
                 if p_status b \<notin> {OFFICE, REMOTE, OFF} then (Inl InvalidArgument, db)
                 else if p_userId b = u_id user then (Inl InvalidArgument, db)
                 else if \<not> canAllocateAttendance db user (p_userId b)
                 then (Inl NotAuthorized, db)
                 else if user_findUnique_id db (p_userId b) = None then (Inl NotFound, db)
                 else if u_role user = CHAPTER_LEAD \<and>
                         find (\<lambda>u. u_id u = p_userId b \<and> u_chapterLeadId u = Some (u_id user))
                           (users db) = None
                 then (Inl NotAuthorized, db)
                 else
                   (case attendanceRecord_upsert db newId (p_userId b) (p_date b)
                           (p_status b) (notesOrNull (p_notes b)) of
                      None \<Rightarrow> (Inl Internal, db)
                    | Some (record, db') \<Rightarrow> (Inr (includeUser db' record, user), db'))))"





section \<open>Calendar arithmetic of the routes\<close>

text \<open>
  The \<open>Date\<close> methods the routes call, on milliseconds since the epoch with UTC as the
  local time zone: \<open>getDay\<close> (0 is Sunday; the epoch was a Thursday),
  \<open>setDate(getDate() + n)\<close>, \<open>setHours(0, 0, 0, 0)\<close>, \<open>setHours(23, 59, 59, 999)\<close> and
  \<open>new Date(year, 0, 1)\<close>, which reads a year from 0 to 99 as 1900 plus that year.
\<close>

definition msPerDay :: int where
  "msPerDay = 86400000"

definition getDay :: "Date \<Rightarrow> int" where
  "getDay t = (t div msPerDay + 4) mod 7"

definition addDays :: "Date \<Rightarrow> int \<Rightarrow> Date" where
  "addDays t n = t + n * msPerDay"

definition startOfDay :: "Date \<Rightarrow> Date" where
  "startOfDay t = (t div msPerDay) * msPerDay"

definition endOfDay :: "Date \<Rightarrow> Date" where
  "endOfDay t = (t div msPerDay) * msPerDay + (msPerDay - 1)"





section \<open>Capacity engine (api/office-capacity)\<close>

text \<open>
  JavaScript numbers are IEEE 754 doubles. \<open>toDouble\<close> rounds a non-negative rational to
  the nearest double (53 significant bits, ties to even; the counts and capacities of
  this route stay far inside the normal range). \<open>Math.round\<close> is exact on a double and
  rounds a tie upwards.
\<close>

definition pow2 :: "int \<Rightarrow> rat" where
  "pow2 e = (if 0 \<le> e then 2 ^ nat e else 1 / 2 ^ nat (- e))"

definition roundHalfEven :: "rat \<Rightarrow> int" where
  "roundHalfEven x =
     (let f = \<lfloor>x\<rfloor>; r = x - of_int f
      in if r < 1 / 2 then f else if 1 / 2 < r then f + 1 else if even f then f else f + 1)"

definition binade :: "rat \<Rightarrow> int" where
  "binade q =
     (let (a, b) = quotient_of q; k = bitlen a - bitlen b
      in if pow2 k \<le> q then k else k - 1)"

definition toDouble :: "rat \<Rightarrow> rat" where
  "toDouble q =
     (if q \<le> 0 then 0
      else (let e = binade q - 52 in of_int (roundHalfEven (q / pow2 e)) * pow2 e))"

definition Math_round :: "rat \<Rightarrow> int" where
  "Math_round x = \<lfloor>x + 1 / 2\<rfloor>"

text \<open>
  \<open>capacity > 0 ? Math.round((bookings / capacity) * 100) : 0\<close>: a double division, a
  double multiplication, then \<open>Math.round\<close>.
\<close>

definition utilizationPercent :: "int \<Rightarrow> int \<Rightarrow> int" where
  "utilizationPercent bookings capacity =
     (if 0 < capacity
      then Math_round (toDouble (toDouble (of_int bookings / of_int capacity) * 100))
      else 0)"

definition defaultCapacities :: "OfficeCapacity list" where
  "defaultCapacities =
     [\<lparr>c_dayOfWeek = ''Monday'', c_capacity = 20\<rparr>,
      \<lparr>c_dayOfWeek = ''Tuesday'', c_capacity = 10\<rparr>,
      \<lparr>c_dayOfWeek = ''Wednesday'', c_capacity = 50\<rparr>,
      \<lparr>c_dayOfWeek = ''Thursday'', c_capacity = 20\<rparr>,
      \<lparr>c_dayOfWeek = ''Friday'', c_capacity = 50\<rparr>]"

definition dayNames :: "string list" where
  "dayNames = [''Monday'', ''Tuesday'', ''Wednesday'', ''Thursday'', ''Friday'']"

record WeekDay =
  w_day :: string
  w_date :: Date
  w_capacity :: int
  w_booked :: int
  w_available :: int
  w_isOverbooked :: bool
  w_utilizationPercent :: int

text \<open>
  The Monday of the requested week: local midnight of today, back to Monday, plus
  \<open>weekOffset\<close> weeks.
\<close>

definition mondayOf :: "Date \<Rightarrow> int \<Rightarrow> Date" where
  "mondayOf today weekOffset =
     (let todayLocal = startOfDay today;
          dayOfWeek = getDay todayLocal;
          mondayOffset = (if dayOfWeek = 0 then - 6 else 1 - dayOfWeek)
      in addDays todayLocal (mondayOffset + weekOffset * 7))"

text \<open>The number of office records whose date lies within the day of \<open>currentDate\<close>.\<close>

definition bookingsOn :: "Db \<Rightarrow> Date \<Rightarrow> int" where
  "bookingsOn db currentDate =
     int (length (filter (\<lambda>r. startOfDay currentDate \<le> a_date r \<and>
                              a_date r \<le> endOfDay currentDate \<and> a_status r = OFFICE)
                    (attendanceRecord db)))"

text \<open>
  One turn of the loop over \<open>i = 0, ..., 4\<close>. A weekday without a setting has capacity 0
  (\<open>capacitySetting?.capacity || 0\<close>). The entry carries the date itself where the
  route formats it as text.
\<close>

definition weekDayEntry :: "Db \<Rightarrow> OfficeCapacity list \<Rightarrow> Date \<Rightarrow> nat \<Rightarrow> WeekDay" where
  "weekDayEntry db capacitySettings monday i =
     (let currentDate = addDays monday (int i);
          bookings = bookingsOn db currentDate;
          capacity = (case find (\<lambda>c. c_dayOfWeek c = dayNames ! i) capacitySettings of
                        None \<Rightarrow> 0
                      | Some capacitySetting \<Rightarrow> c_capacity capacitySetting);
          available = capacity - bookings
      in \<lparr>w_day = dayNames ! i,
          w_date = currentDate,
          w_capacity = capacity,
          w_booked = bookings,
          w_available = (if 0 < available then available else 0),
          w_isOverbooked = (capacity < bookings),
          w_utilizationPercent = utilizationPercent bookings capacity\<rparr>)"

text \<open>
  \<open>prisma.officeCapacity.findMany\<close> with \<open>orderBy: { dayOfWeek: "asc" }\<close>: the settings
  in the order of their day names, as text (the names the routes store are the five
  English weekday names).
\<close>

definition officeCapacity_findMany :: "Db \<Rightarrow> OfficeCapacity list" where
  "officeCapacity_findMany db = sort_key c_dayOfWeek (officeCapacity db)"

text \<open>
  \<open>GET /api/office-capacity\<close>: Chapter Leads and the Tribe Lead only. When the settings
  read from the store are empty, the defaults are created and the settings read again,
  before the week is computed.
\<close>

definition office_capacity_GET ::
  "Db \<Rightarrow> Date \<Rightarrow> string option \<Rightarrow> int \<Rightarrow>
     (ApiError + (WeekDay list \<times> OfficeCapacity list)) \<times> Db" where
  "office_capacity_GET db today hdr weekOffset =
     (case getUserFromRequest db hdr of
        None \<Rightarrow> (Inl NotAuthenticated, db)
      | Some user \<Rightarrow>
          if u_role user \<noteq> CHAPTER_LEAD \<and> u_role user \<noteq> TRIBE_LEAD
          then (Inl NotAuthorized, db)
          else
            (let monday = mondayOf today weekOffset;
                 db' = (if officeCapacity_findMany db = []
                        then db\<lparr>officeCapacity := defaultCapacities\<rparr> else db);
                 capacitySettings = officeCapacity_findMany db';
                 weekData = map (weekDayEntry db' capacitySettings monday) [0..<5]
             in (Inr (weekData, capacitySettings), db')))"

section \<open>Delegation registry (api/delegations)\<close>

text \<open>
  The body of \<open>POST /api/delegations\<close>: a missing or falsy field is \<open>None\<close>; the dates are
  the values of \<open>new Date(startDate)\<close> and \<open>new Date(endDate)\<close>.
\<close>

record CreateDelegation =
  b_delegateId :: "string option"
  b_startDate :: "Date option"
  b_endDate :: "Date option"

text \<open>\<open>updateMany\<close>: every active delegation of the delegate is made inactive.\<close>

definition deactivateFor :: "string \<Rightarrow> Delegation list \<Rightarrow> Delegation list" where
  "deactivateFor delegateId ds =
     map (\<lambda>d. if d_delegateId d = delegateId \<and> d_isActive d
              then d\<lparr>d_isActive := False\<rparr> else d) ds"

text \<open>
  \<open>POST /api/delegations\<close>: Tribe Lead only; all three fields; \<open>start < end\<close>; the delegate
  exists; then the deactivation and the creation of the new, active delegation under the
  id the store generates (\<open>newId\<close>).
\<close>

definition delegations_POST ::
  "Db \<Rightarrow> string \<Rightarrow> string option \<Rightarrow> CreateDelegation \<Rightarrow> (ApiError + Delegation) \<times> Db" where
  "delegations_POST db newId hdr body =
     (case getUserFromRequest db hdr of
        None \<Rightarrow> (Inl NotAuthenticated, db)
      | Some user \<Rightarrow>
          if u_role user \<noteq> TRIBE_LEAD then (Inl NotAuthorized, db)
          else if \<not> truthy (b_delegateId body) \<or> b_startDate body = None \<or>
                  b_endDate body = None
          then (Inl InvalidArgument, db)
          else
            (let delegateId = the (b_delegateId body);
                 start = the (b_startDate body);
                 end' = the (b_endDate body)
             in if end' \<le> start then (Inl InvalidArgument, db)
                else if user_findUnique_id db delegateId = None then (Inl NotFound, db)
                else
                  (let created = \<lparr>d_id = newId, d_delegatorId = u_id user,
                                   d_delegateId = delegateId, d_startDate = start,
                                   d_endDate = end', d_isActive = True\<rparr>
                   in (Inr created,
                       db\<lparr>delegation :=
                             deactivateFor delegateId (delegation db) @ [created]\<rparr>))))"

text \<open>
  \<open>DELETE /api/delegations\<close>: Tribe Lead only; the delegation with the id is made
  inactive; \<open>update\<close> on an id that is not there throws, which the \<open>catch\<close> turns into 500.
\<close>

definition delegations_DELETE ::
  "Db \<Rightarrow> string option \<Rightarrow> string option \<Rightarrow> (ApiError + Delegation) \<times> Db" where
  "delegations_DELETE db hdr i =
     (case getUserFromRequest db hdr of
        None \<Rightarrow> (Inl NotAuthenticated, db)
      | Some user \<Rightarrow>
          if u_role user \<noteq> TRIBE_LEAD then (Inl NotAuthorized, db)
          else if \<not> truthy i then (Inl InvalidArgument, db)
          else
            (case find (\<lambda>d. d_id d = the i) (delegation db) of
               None \<Rightarrow> (Inl Internal, db)
             | Some d \<Rightarrow>
                 (Inr (d\<lparr>d_isActive := False\<rparr>),
                  db\<lparr>delegation :=
                        map (\<lambda>d'. if d_id d' = the i then d'\<lparr>d_isActive := False\<rparr> else d')
                          (delegation db)\<rparr>)))"

section \<open>Statistics reset (api/admin/reset-statistics)\<close>

text \<open>
  \<open>POST /api/admin/reset-statistics\<close>: after authentication the role of the user itself
  is checked; then one transaction deletes the attendance records, the delegations and
  the capacity settings.
\<close>

definition reset_statistics_POST :: "Db \<Rightarrow> string option \<Rightarrow> (ApiError + unit) \<times> Db" where
  "reset_statistics_POST db hdr =
     (case getUserFromRequest db hdr of
        None \<Rightarrow> (Inl NotAuthenticated, db)
      | Some user \<Rightarrow>
          if u_role user \<noteq> TRIBE_LEAD then (Inl NotAuthorized, db)
          else (Inr (), db\<lparr>attendanceRecord := [], delegation := [], officeCapacity := []\<rparr>))"

section \<open>Invariants of the store\<close>

text \<open>At most one active delegation for each delegate that occurs in the table.\<close>

definition activeFor :: "string \<Rightarrow> Delegation list \<Rightarrow> Delegation list" where
  "activeFor x ds = filter (\<lambda>d. d_delegateId d = x \<and> d_isActive d) ds"

definition atMostOneActive :: "Delegation list \<Rightarrow> bool" where
  "atMostOneActive ds = (\<forall>d \<in> set ds. length (activeFor (d_delegateId d) ds) \<le> 1)"

text \<open>The unique key \<open>(userId, date)\<close> of the attendance table.\<close>

definition uniqueUserDate :: "AttendanceRecord list \<Rightarrow> bool" where
  "uniqueUserDate rs = distinct (map (\<lambda>r. (a_userId r, a_date r)) rs)"

text \<open>
  The states a store reaches from \<open>db0\<close> through the modelled routes that write: each
  step is one request, with whatever header, body and generated id.
\<close>

inductive reachable :: "Db \<Rightarrow> Db \<Rightarrow> bool" for db0 :: Db where
  reach_init: "reachable db0 db0"
| reach_attendance_POST:
    "reachable db0 db \<Longrightarrow> reachable db0 (snd (attendance_POST db newId hdr body))"
| reach_allocate_POST:
    "reachable db0 db \<Longrightarrow> reachable db0 (snd (attendance_allocate_POST db newId hdr body))"
| reach_capacity_GET:
    "reachable db0 db \<Longrightarrow> reachable db0 (snd (office_capacity_GET db today hdr weekOffset))"
| reach_delegations_POST:
    "reachable db0 db \<Longrightarrow> reachable db0 (snd (delegations_POST db newId hdr dbody))"
| reach_delegations_DELETE:
    "reachable db0 db \<Longrightarrow> reachable db0 (snd (delegations_DELETE db hdr i))"
| reach_reset:
    "reachable db0 db \<Longrightarrow> reachable db0 (snd (reset_statistics_POST db hdr))"

section \<open>A small organisation\<close>

text \<open>
  One Tribe Lead, one Chapter Lead with the reporter U7, and the reporter R1 without a
  lead. The Tribe Lead has given R1 a delegation from 2025-01-01 to 2025-01-07; U7 has
  booked the office for Thursday 2025-01-02.
\<close>

definition tribeLead :: User where
  "tribeLead = \<lparr>u_id = ''t1'', u_email = ''t1@corp'', u_name = ''Tess'', u_role = TRIBE_LEAD,
         u_chapterLeadId = None\<rparr>"

definition chapterLead :: User where
  "chapterLead = \<lparr>u_id = ''c1'', u_email = ''c1@corp'', u_name = ''Carl'', u_role = CHAPTER_LEAD,
         u_chapterLeadId = None\<rparr>"

definition reporterR1 :: User where
  "reporterR1 = \<lparr>u_id = ''r1'', u_email = ''r1@corp'', u_name = ''Rita'', u_role = REPORTER,
         u_chapterLeadId = None\<rparr>"

definition reporterU7 :: User where
  "reporterU7 = \<lparr>u_id = ''u7'', u_email = ''u7@corp'', u_name = ''Uwe'', u_role = REPORTER,
         u_chapterLeadId = Some ''c1''\<rparr>"

definition jan01 :: Date where "jan01 = 1735689600000"
definition jan02 :: Date where "jan02 = 1735776000000"
definition jan03 :: Date where "jan03 = 1735862400000"
definition jan07 :: Date where "jan07 = 1736208000000"
definition jan08 :: Date where "jan08 = 1736294400000"

definition delegationD1 :: Delegation where
  "delegationD1 = \<lparr>d_id = ''d1'', d_delegatorId = ''t1'', d_delegateId = ''r1'',
         d_startDate = jan01, d_endDate = jan07, d_isActive = True\<rparr>"

definition recordA7 :: AttendanceRecord where
  "recordA7 = \<lparr>a_id = ''a7'', a_userId = ''u7'', a_date = jan02, a_status = OFFICE,
         a_notes = None\<rparr>"

definition org :: Db where
  "org = \<lparr>users = [tribeLead, chapterLead, reporterR1, reporterU7], attendanceRecord = [recordA7], delegation = [delegationD1],
          officeCapacity = []\<rparr>"

text \<open>
  A Tuesday with twelve office bookings and no capacity setting in the store:
  2024-12-31, in the week of 2025-01-03.
\<close>

definition dec31 :: Date where "dec31 = 1735603200000"

definition seat :: "nat \<Rightarrow> AttendanceRecord" where
  "seat k = \<lparr>a_id = ''s'' @ replicate k CHR ''i'', a_userId = ''w'' @ replicate k CHR ''i'',
             a_date = dec31, a_status = OFFICE, a_notes = None\<rparr>"

definition fullTuesday :: Db where
  "fullTuesday = \<lparr>users = [tribeLead, chapterLead], attendanceRecord = map seat [0..<12],
                  delegation = [], officeCapacity = []\<rparr>"

text \<open>
  The same Tuesday with 23 office bookings and the one setting Tuesday: 40.
\<close>

definition halfTuesday :: Db where
  "halfTuesday = \<lparr>users = [tribeLead, chapterLead], attendanceRecord = map seat [0..<23],
                  delegation = [],
                  officeCapacity = [\<lparr>c_dayOfWeek = ''Tuesday'', c_capacity = 40\<rparr>]\<rparr>"

section \<open>Facts about the store\<close>

lemmas org_defs = org_def tribeLead_def chapterLead_def reporterR1_def reporterU7_def
  delegationD1_def recordA7_def jan01_def jan02_def jan03_def jan07_def jan08_def

lemma delegation_update_lookup [simp]:
  "user_findUnique_id (db\<lparr>delegation := ds\<rparr>) i = user_findUnique_id db i"
  "getUserFromRequest (db\<lparr>delegation := ds\<rparr>) h = getUserFromRequest db h"
  by (simp_all add: user_findUnique_id_def getUserFromRequest_def user_findUnique_email_def
        split: option.splits)

section \<open>Write authorization\<close>

text \<open>
  Claim C1, as the code has it. \<open>canAllocateAttendance\<close> holds exactly for the actor
  itself, for a Tribe Lead, and for a Chapter Lead whose id is the \<open>chapterLeadId\<close> of an
  existing target. The delegation table has no part in it: whatever delegations \<open>ds\<close> the
  store holds, a reporter's \<open>POST /api/attendance\<close> for another user is refused with
  \<open>NotAuthorized\<close>, inside a delegation window as well as outside, and the
  allocate-for-others route refuses every reporter.
\<close>

theorem canAllocateAttendance_hierarchy_only:
  assumes "getUserFromRequest db hdr = Some actor"
  shows "(canAllocateAttendance (db\<lparr>delegation := ds\<rparr>) actor targetUserId \<longleftrightarrow>
           u_id actor = targetUserId \<or> u_role actor = TRIBE_LEAD \<or>
           (u_role actor = CHAPTER_LEAD \<and>
            (\<exists>t. user_findUnique_id db targetUserId = Some t \<and>
                 u_chapterLeadId t = Some (u_id actor)))) \<and>
         (u_role actor = REPORTER \<and> p_userId b \<noteq> u_id actor \<and>
          p_status b \<in> {OFFICE, REMOTE, ABSENT, VACATION} \<longrightarrow>
            attendance_POST (db\<lparr>delegation := ds\<rparr>) newId hdr (Some b) =
              (Inl NotAuthorized, db\<lparr>delegation := ds\<rparr>)) \<and>
         (u_role actor = REPORTER \<longrightarrow>
            attendance_allocate_POST (db\<lparr>delegation := ds\<rparr>) newId hdr body =
              (Inl NotAuthorized, db\<lparr>delegation := ds\<rparr>))"
proof -
  have rule: "canAllocateAttendance (db\<lparr>delegation := ds\<rparr>) actor targetUserId \<longleftrightarrow>
           u_id actor = targetUserId \<or> u_role actor = TRIBE_LEAD \<or>
           (u_role actor = CHAPTER_LEAD \<and>
            (\<exists>t. user_findUnique_id db targetUserId = Some t \<and>
                 u_chapterLeadId t = Some (u_id actor)))" for targetUserId
    by (cases "u_role actor")
       (auto simp: canAllocateAttendance_def isTribeLead_def isChapterLead_def
             split: option.splits)
  have post: "attendance_POST (db\<lparr>delegation := ds\<rparr>) newId hdr (Some b) =
              (Inl NotAuthorized, db\<lparr>delegation := ds\<rparr>)"
    if "u_role actor = REPORTER" "p_userId b \<noteq> u_id actor"
       "p_status b \<in> {OFFICE, REMOTE, ABSENT, VACATION}"
    using that assms rule [of "p_userId b"] by (auto simp: attendance_POST_def)
  have alloc: "attendance_allocate_POST (db\<lparr>delegation := ds\<rparr>) newId hdr body =
              (Inl NotAuthorized, db\<lparr>delegation := ds\<rparr>)"
    if "u_role actor = REPORTER"
    using that assms by (simp add: attendance_allocate_POST_def)
  from rule post alloc show ?thesis by blast
qed

text \<open>
  The rule at work: with the delegation of R1 in the store, R1 is still refused for U7 on
  both write routes.
\<close>

theorem canAllocateAttendance_hierarchy_only_witness:
  "getUserFromRequest org (Some ''r1@corp'') = Some reporterR1 \<and>
   \<not> canAllocateAttendance (org\<lparr>delegation := [delegationD1]\<rparr>) reporterR1 ''u7'' \<and>
   attendance_POST (org\<lparr>delegation := [delegationD1]\<rparr>) ''a8'' (Some ''r1@corp'')
     (Some \<lparr>p_userId = ''u7'', p_date = jan03, p_status = OFFICE, p_notes = None\<rparr>) =
     (Inl NotAuthorized, org\<lparr>delegation := [delegationD1]\<rparr>) \<and>
   attendance_allocate_POST (org\<lparr>delegation := [delegationD1]\<rparr>) ''a8'' (Some ''r1@corp'')
     (Some \<lparr>p_userId = ''u7'', p_date = jan03, p_status = OFFICE, p_notes = None\<rparr>) =
     (Inl NotAuthorized, org\<lparr>delegation := [delegationD1]\<rparr>)"
proof -
  have h: "getUserFromRequest org (Some ''r1@corp'') = Some reporterR1"
    by (simp add: getUserFromRequest_def user_findUnique_email_def org_defs)
  have r: "u_role reporterR1 = REPORTER" "u_id reporterR1 = ''r1''"
    by (simp_all add: reporterR1_def)
  have u: "user_findUnique_id org ''u7'' = Some reporterU7"
    "u_chapterLeadId reporterU7 = Some ''c1''"
    by (simp_all add: user_findUnique_id_def org_defs)
  show ?thesis
    using canAllocateAttendance_hierarchy_only [OF h, of "[delegationD1]" "''u7''"
        "\<lparr>p_userId = ''u7'', p_date = jan03, p_status = OFFICE, p_notes = None\<rparr>" "''a8''"
        "Some \<lparr>p_userId = ''u7'', p_date = jan03, p_status = OFFICE, p_notes = None\<rparr>"]
    by (simp add: h r u)
qed

text \<open>
  The scenario of the delegation: on 2025-01-03 the reporter R1 holds a currently
  effective delegation, U7 exists and is not R1's report, and the upsert of R1 for U7
  is refused.
\<close>

theorem delegate_write_counterexample:
  "getUserFromRequest org (Some ''r1@corp'') = Some reporterR1 \<and>
   u_role reporterR1 = REPORTER \<and>
   activeDelegation org jan03 reporterR1 = Some delegationD1 \<and>
   user_findUnique_id org ''u7'' = Some reporterU7 \<and>
   \<not> canAllocateAttendance org reporterR1 ''u7'' \<and>
   attendance_POST org ''a8'' (Some ''r1@corp'')
     (Some \<lparr>p_userId = ''u7'', p_date = jan03, p_status = OFFICE, p_notes = None\<rparr>) =
     (Inl NotAuthorized, org)"
  by (simp add: getUserFromRequest_def user_findUnique_email_def user_findUnique_id_def
        activeDelegation_def currentlyEffective_def canAllocateAttendance_def
        attendance_POST_def isTribeLead_def isChapterLead_def org_defs)

section \<open>Read reach\<close>

text \<open>
  Claim C2, as the code has it. The ids \<open>getAccessibleUserIds\<close> returns are all user ids
  for a Tribe Lead, the own id and the ids of the users whose \<open>chapterLeadId\<close> is the
  principal for a Chapter Lead, and the own id alone for a reporter, whatever
  delegations \<open>ds\<close> the store holds: a delegation does not widen the read set.
\<close>

theorem getAccessibleUserIds_by_role:
  "set (getAccessibleUserIds (db\<lparr>delegation := ds\<rparr>) p) =
     (case u_role p of
        TRIBE_LEAD \<Rightarrow> u_id ` set (users db)
      | CHAPTER_LEAD \<Rightarrow>
          {u_id p} \<union> u_id ` {u \<in> set (users db). u_chapterLeadId u = Some (u_id p)}
      | REPORTER \<Rightarrow> {u_id p})"
  by (cases "u_role p")
     (simp_all add: getAccessibleUserIds_def isTribeLead_def isChapterLead_def)

theorem getAccessibleUserIds_by_role_witness:
  "set (getAccessibleUserIds (org\<lparr>delegation := [delegationD1]\<rparr>) reporterR1) = {''r1''} \<and>
   set (getAccessibleUserIds (org\<lparr>delegation := []\<rparr>) chapterLead) = {''c1'', ''u7''} \<and>
   set (getAccessibleUserIds (org\<lparr>delegation := []\<rparr>) tribeLead) =
     {''t1'', ''c1'', ''r1'', ''u7''}"
  using
    getAccessibleUserIds_by_role [where db = org and ds = "[delegationD1]" and p = reporterR1]
    getAccessibleUserIds_by_role [where db = org and ds = "[]" and p = chapterLead]
    getAccessibleUserIds_by_role [where db = org and ds = "[]" and p = tribeLead]
  unfolding set_filter [symmetric]
  by (simp add: org_defs insert_commute)

text \<open>
  On 2025-01-03 the reporter R1 holds a currently effective delegation, and the read set
  of R1 is R1 alone, not every user.
\<close>

theorem delegate_read_counterexample:
  "u_role reporterR1 = REPORTER \<and>
   activeDelegation org jan03 reporterR1 = Some delegationD1 \<and>
   currentlyEffective jan03 (u_id reporterR1) delegationD1 \<and>
   set (getAccessibleUserIds org reporterR1) = {''r1''} \<and>
   set (getAccessibleUserIds org reporterR1) \<noteq> u_id ` set (users org)"
  by (simp add: activeDelegation_def currentlyEffective_def getAccessibleUserIds_def
        isTribeLead_def isChapterLead_def org_defs)

lemma getUserFromRequest_mem:
  "getUserFromRequest db hdr = Some actor \<Longrightarrow> actor \<in> set (users db)"
  by (auto simp: getUserFromRequest_def user_findUnique_email_def find_Some_iff
      split: option.splits if_splits)

lemma user_findUnique_id_None:
  "user_findUnique_id db uid = None \<longleftrightarrow> uid \<notin> u_id ` set (users db)"
  by (auto simp: user_findUnique_id_def find_None_iff)

lemma getAccessibleUserIds_exist:
  assumes "actor \<in> set (users db)"
  shows "set (getAccessibleUserIds db actor) \<subseteq> u_id ` set (users db)"
  using assms by (auto simp: getAccessibleUserIds_def)

section \<open>Retrieval\<close>

text \<open>
  The list route keeps to the read set: every record \<open>GET /api/attendance\<close> returns
  belongs to a user in \<open>getAccessibleUserIds\<close> of the principal.
\<close>

lemma attendance_GET_within_read_set:
  assumes "getUserFromRequest db hdr = Some p"
    and "attendance_GET db hdr query = Inr rows"
    and "(r, owner) \<in> set rows"
  shows "a_userId r \<in> set (getAccessibleUserIds db p)"
  using assms
  by (auto simp: attendance_GET_def Let_def includeUser_def truthy_def
      split: option.splits if_splits)


text \<open>
  Claim C4, as the code has it. \<open>GET /api/attendance\<close> never answers \<open>NotFound\<close>. A
  requested \<open>userId\<close> outside the read set of the actor is refused with \<open>NotAuthorized\<close>,
  and a \<open>userId\<close> that no user has is outside every read set, so it is refused in the
  same way. On the allocate route a target that does not exist gives \<open>NotFound\<close> to a
  Tribe Lead and \<open>NotAuthorized\<close> to a Chapter Lead.
\<close>

theorem attendance_GET_unknown_target:
  "attendance_GET db hdr query \<noteq> Inl NotFound \<and>
   (getUserFromRequest db hdr = Some actor \<longrightarrow>
      (truthy (q_userId q) \<and> the (q_userId q) \<notin> set (getAccessibleUserIds db actor) \<longrightarrow>
         attendance_GET db hdr (Some q) = Inl NotAuthorized) \<and>
      (user_findUnique_id db uid = None \<longrightarrow> uid \<notin> set (getAccessibleUserIds db actor)) \<and>
      (p_status b \<in> {OFFICE, REMOTE, OFF} \<and> p_userId b \<noteq> u_id actor \<and>
       user_findUnique_id db (p_userId b) = None \<longrightarrow>
         attendance_allocate_POST db newId hdr (Some b) =
           (Inl (if u_role actor = TRIBE_LEAD then NotFound else NotAuthorized), db)))"
proof -
  have never: "attendance_GET db hdr query \<noteq> Inl NotFound"
    by (simp add: attendance_GET_def Let_def split: option.splits)
  have refused: "attendance_GET db hdr (Some q) = Inl NotAuthorized"
    if "getUserFromRequest db hdr = Some actor" "truthy (q_userId q)"
      "the (q_userId q) \<notin> set (getAccessibleUserIds db actor)"
    using that by (simp add: attendance_GET_def)
  have outside: "uid \<notin> set (getAccessibleUserIds db actor)"
    if "getUserFromRequest db hdr = Some actor" "user_findUnique_id db uid = None"
    using getAccessibleUserIds_exist [OF getUserFromRequest_mem [OF that(1)]] that(2)
    by (auto simp: user_findUnique_id_None)
  have alloc: "attendance_allocate_POST db newId hdr (Some b) =
           (Inl (if u_role actor = TRIBE_LEAD then NotFound else NotAuthorized), db)"
    if "getUserFromRequest db hdr = Some actor" "p_status b \<in> {OFFICE, REMOTE, OFF}"
      "p_userId b \<noteq> u_id actor" "user_findUnique_id db (p_userId b) = None"
    using that
    by (cases "u_role actor")
       (auto simp: attendance_allocate_POST_def canAllocateAttendance_def isTribeLead_def
          isChapterLead_def)
  from never refused outside alloc show ?thesis by blast
qed

theorem attendance_GET_unknown_target_witness:
  "attendance_GET org (Some ''c1@corp'')
     (Some \<lparr>q_userId = Some ''ghost'', q_startDate = None, q_endDate = None,
            q_status = None\<rparr>) = Inl NotAuthorized \<and>
   ''ghost'' \<notin> set (getAccessibleUserIds org chapterLead) \<and>
   attendance_allocate_POST org ''a8'' (Some ''c1@corp'')
     (Some \<lparr>p_userId = ''ghost'', p_date = jan03, p_status = OFFICE, p_notes = None\<rparr>) =
     (Inl NotAuthorized, org)"
proof -
  have h: "getUserFromRequest org (Some ''c1@corp'') = Some chapterLead"
    by (simp add: getUserFromRequest_def user_findUnique_email_def org_defs)
  have g: "user_findUnique_id org ''ghost'' = None"
    by (simp add: user_findUnique_id_def org_defs)
  have c: "u_role chapterLead = CHAPTER_LEAD" "u_id chapterLead = ''c1''"
    by (simp_all add: chapterLead_def)
  show ?thesis
    using attendance_GET_unknown_target [of org "Some ''c1@corp''" None chapterLead
        "\<lparr>q_userId = Some ''ghost'', q_startDate = None, q_endDate = None, q_status = None\<rparr>"
        "''ghost''"
        "\<lparr>p_userId = ''ghost'', p_date = jan03, p_status = OFFICE, p_notes = None\<rparr>" "''a8''"]
    by (simp add: h g c truthy_def)
qed

text \<open>
  The Tribe Lead asks for a user that does not exist, the reporter R1 for the existing
  user U7: both are answered \<open>NotAuthorized\<close>.
\<close>

theorem unknown_target_counterexample:
  "getUserFromRequest org (Some ''t1@corp'') = Some tribeLead \<and>
   user_findUnique_id org ''ghost'' = None \<and>
   attendance_GET org (Some ''t1@corp'')
     (Some \<lparr>q_userId = Some ''ghost'', q_startDate = None, q_endDate = None,
            q_status = None\<rparr>) = Inl NotAuthorized \<and>
   getUserFromRequest org (Some ''r1@corp'') = Some reporterR1 \<and>
   user_findUnique_id org ''u7'' = Some reporterU7 \<and>
   attendance_GET org (Some ''r1@corp'')
     (Some \<lparr>q_userId = Some ''u7'', q_startDate = None, q_endDate = None,
            q_status = None\<rparr>) = Inl NotAuthorized"
  by (simp add: attendance_GET_def getUserFromRequest_def user_findUnique_email_def
        user_findUnique_id_def getAccessibleUserIds_def isTribeLead_def isChapterLead_def
        truthy_def org_defs)



section \<open>Statistics reset\<close>

text \<open>
  Claim C7. The reset succeeds exactly when the request comes from a user whose own
  role is \<open>TRIBE_LEAD\<close>. Every other authenticated user, a Chapter Lead or a holder of
  a currently effective delegation included, is answered \<open>NotAuthorized\<close>, and the
  store is returned as it was.
\<close>

theorem reset_statistics_own_role_only:
  "(fst (reset_statistics_POST db hdr) = Inr () \<longleftrightarrow>
      (\<exists>actor. getUserFromRequest db hdr = Some actor \<and> u_role actor = TRIBE_LEAD)) \<and>
   (getUserFromRequest db hdr = Some actor \<and> u_role actor \<noteq> TRIBE_LEAD \<longrightarrow>
      reset_statistics_POST db hdr = (Inl NotAuthorized, db))"
  by (auto simp: reset_statistics_POST_def split: option.splits)

text \<open>
  R1, holding a currently effective delegation on 2025-01-03, is refused, and so is the
  Chapter Lead; the store stays as it was. The Tribe Lead succeeds.
\<close>

theorem reset_statistics_own_role_only_witness:
  "activeDelegation org jan03 reporterR1 = Some delegationD1 \<and>
   reset_statistics_POST org (Some ''r1@corp'') = (Inl NotAuthorized, org) \<and>
   reset_statistics_POST org (Some ''c1@corp'') = (Inl NotAuthorized, org) \<and>
   fst (reset_statistics_POST org (Some ''t1@corp'')) = Inr ()"
proof -
  have h: "getUserFromRequest org (Some ''r1@corp'') = Some reporterR1"
    "getUserFromRequest org (Some ''c1@corp'') = Some chapterLead"
    "getUserFromRequest org (Some ''t1@corp'') = Some tribeLead"
    by (simp_all add: getUserFromRequest_def user_findUnique_email_def org_defs)
  have r: "u_role reporterR1 = REPORTER" "u_role chapterLead = CHAPTER_LEAD"
    "u_role tribeLead = TRIBE_LEAD"
    by (simp_all add: reporterR1_def chapterLead_def tribeLead_def)
  have d: "activeDelegation org jan03 reporterR1 = Some delegationD1"
    by (simp add: activeDelegation_def currentlyEffective_def org_defs)
  show ?thesis
    using reset_statistics_own_role_only [of org "Some ''r1@corp''" reporterR1]
      reset_statistics_own_role_only [of org "Some ''c1@corp''" chapterLead]
      reset_statistics_own_role_only [of org "Some ''t1@corp''" tribeLead]
    by (simp add: h r d)
qed

text \<open>
  Claim C10. Performed by the Tribe Lead, the reset succeeds and leaves no attendance
  record, no delegation and no capacity setting; the user table, with every user's id,
  role and \<open>chapterLeadId\<close>, is the one before.
\<close>

theorem reset_statistics_frame:
  assumes "getUserFromRequest db hdr = Some actor" and "u_role actor = TRIBE_LEAD"
  shows "fst (reset_statistics_POST db hdr) = Inr () \<and>
         attendanceRecord (snd (reset_statistics_POST db hdr)) = [] \<and>
         delegation (snd (reset_statistics_POST db hdr)) = [] \<and>
         officeCapacity (snd (reset_statistics_POST db hdr)) = [] \<and>
         users (snd (reset_statistics_POST db hdr)) = users db"
  using assms by (simp add: reset_statistics_POST_def)

theorem reset_statistics_frame_witness:
  "fst (reset_statistics_POST org (Some ''t1@corp'')) = Inr () \<and>
   snd (reset_statistics_POST org (Some ''t1@corp'')) =
     \<lparr>users = [tribeLead, chapterLead, reporterR1, reporterU7], attendanceRecord = [],
      delegation = [], officeCapacity = []\<rparr>"
proof -
  have h: "getUserFromRequest org (Some ''t1@corp'') = Some tribeLead"
    by (simp add: getUserFromRequest_def user_findUnique_email_def org_defs)
  have r: "u_role tribeLead = TRIBE_LEAD"
    by (simp add: tribeLead_def)
  have u: "users org = [tribeLead, chapterLead, reporterR1, reporterU7]"
    by (simp add: org_def)
  have eq: "db = \<lparr>users = users db, attendanceRecord = attendanceRecord db,
      delegation = delegation db, officeCapacity = officeCapacity db\<rparr>" for db :: Db
    by simp
  show ?thesis
    using reset_statistics_frame [OF h r] eq [of "snd (reset_statistics_POST org (Some ''t1@corp''))"]
    by (simp add: u)
qed

section \<open>Delegation registry: one active delegation for each delegate\<close>

lemma atMostOneActive_all:
  "atMostOneActive ds \<longleftrightarrow> (\<forall>x. length (activeFor x ds) \<le> 1)"
proof
  assume a: "atMostOneActive ds"
  show "\<forall>x. length (activeFor x ds) \<le> 1"
  proof
    fix x
    show "length (activeFor x ds) \<le> 1"
    proof (cases "activeFor x ds")
      case Nil
      then show ?thesis by simp
    next
      case (Cons d rest)
      then have "d \<in> set (activeFor x ds)" by simp
      then have "d \<in> set ds" "d_delegateId d = x" by (simp_all add: activeFor_def)
      with a show ?thesis by (auto simp: atMostOneActive_def)
    qed
  qed
next
  assume "\<forall>x. length (activeFor x ds) \<le> 1"
  then show "atMostOneActive ds" by (simp add: atMostOneActive_def)
qed

lemma activeFor_deactivateFor_same: "activeFor x (deactivateFor x ds) = []"
  by (induction ds) (simp_all add: activeFor_def deactivateFor_def)

lemma activeFor_deactivateFor_other:
  "y \<noteq> x \<Longrightarrow> activeFor y (deactivateFor x ds) = activeFor y ds"
  by (induction ds) (simp_all add: activeFor_def deactivateFor_def)

lemma activeFor_append: "activeFor x (ds @ es) = activeFor x ds @ activeFor x es"
  by (simp add: activeFor_def)

lemma length_activeFor_revoke:
  "length (activeFor x (map (\<lambda>d. if d_id d = i then d\<lparr>d_isActive := False\<rparr> else d) ds))
     \<le> length (activeFor x ds)"
  by (induction ds) (simp_all add: activeFor_def)

lemma attendanceRecord_upsert_frame:
  "attendanceRecord_upsert db newId u d s n = Some (r, db') \<Longrightarrow>
     users db' = users db \<and> delegation db' = delegation db \<and>
     officeCapacity db' = officeCapacity db"
  by (auto simp: attendanceRecord_upsert_def Let_def split: option.splits if_splits)

lemma attendance_POST_delegation:
  "delegation (snd (attendance_POST db newId hdr body)) = delegation db"
  by (auto simp: attendance_POST_def dest: attendanceRecord_upsert_frame
      split: option.splits)

lemma attendance_allocate_POST_delegation:
  "delegation (snd (attendance_allocate_POST db newId hdr body)) = delegation db"
  by (auto simp: attendance_allocate_POST_def dest: attendanceRecord_upsert_frame
      split: option.splits)

lemma office_capacity_GET_delegation:
  "delegation (snd (office_capacity_GET db today hdr weekOffset)) = delegation db"
  by (simp add: office_capacity_GET_def Let_def split: option.splits)

lemma delegations_POST_invariant:
  assumes "atMostOneActive (delegation db)"
  shows "atMostOneActive (delegation (snd (delegations_POST db newId hdr body)))"
proof -
  have "length (activeFor y (deactivateFor x (delegation db) @ [c])) \<le> 1"
    if "d_delegateId c = x" for x y c
  proof (cases "y = x")
    case True
    then show ?thesis
      by (simp add: activeFor_append activeFor_deactivateFor_same) (simp add: activeFor_def)
  next
    case False
    with that assms show ?thesis
      by (simp add: activeFor_append activeFor_deactivateFor_other atMostOneActive_all)
         (simp add: activeFor_def)
  qed
  with assms show ?thesis
    by (auto simp: delegations_POST_def Let_def atMostOneActive_all split: option.splits)
qed

lemma delegations_DELETE_invariant:
  assumes "atMostOneActive (delegation db)"
  shows "atMostOneActive (delegation (snd (delegations_DELETE db hdr i)))"
proof -
  have "length (activeFor x (map (\<lambda>d. if d_id d = j then d\<lparr>d_isActive := False\<rparr> else d)
          (delegation db))) \<le> 1" for x j
    using length_activeFor_revoke [of x j "delegation db"] assms
    by (simp add: atMostOneActive_all le_trans)
  with assms show ?thesis
    by (auto simp: delegations_DELETE_def atMostOneActive_all split: option.splits)
qed

lemma reset_statistics_POST_invariant:
  assumes "atMostOneActive (delegation db)"
  shows "atMostOneActive (delegation (snd (reset_statistics_POST db hdr)))"
  using assms
  by (auto simp: reset_statistics_POST_def atMostOneActive_def split: option.splits)

lemma reachable_atMostOneActive:
  assumes "reachable db0 db" and "atMostOneActive (delegation db0)"
  shows "atMostOneActive (delegation db)"
  using assms
proof (induction rule: reachable.induct)
  case reach_init
  then show ?case by simp
next
  case (reach_attendance_POST db newId hdr body)
  then show ?case by (simp add: attendance_POST_delegation)
next
  case (reach_allocate_POST db newId hdr body)
  then show ?case by (simp add: attendance_allocate_POST_delegation)
next
  case (reach_capacity_GET db today hdr weekOffset)
  then show ?case by (simp add: office_capacity_GET_delegation)
next
  case (reach_delegations_POST db newId hdr dbody)
  then show ?case by (simp add: delegations_POST_invariant)
next
  case (reach_delegations_DELETE db hdr i)
  then show ?case by (simp add: delegations_DELETE_invariant)
next
  case (reach_reset db hdr)
  then show ?case by (simp add: reset_statistics_POST_invariant)
qed

text \<open>
  Claim C5. Along every sequence of requests from a store with at most one active
  delegation for each delegate, that remains so. A \<open>POST /api/delegations\<close> of the
  Tribe Lead with all fields, \<open>start < end\<close> and an existing delegate \<open>x\<close> succeeds,
  whatever delegations \<open>x\<close> already has: every delegation of \<open>x\<close> in the table is made
  inactive, the new one is appended as active, and afterwards the active delegations
  of \<open>x\<close> are exactly the new one. (Requests are taken one after the other.)
\<close>

theorem delegations_POST_single_active:
  assumes "reachable db0 db" and "atMostOneActive (delegation db0)"
    and "getUserFromRequest db hdr = Some actor" and "u_role actor = TRIBE_LEAD"
    and "b_delegateId body = Some x" and "x \<noteq> []"
    and "b_startDate body = Some start" and "b_endDate body = Some end'"
    and "start < end'" and "user_findUnique_id db x \<noteq> None"
  shows "atMostOneActive (delegation db) \<and>
         (\<exists>created db'.
            delegations_POST db newId hdr body = (Inr created, db') \<and>
            created = \<lparr>d_id = newId, d_delegatorId = u_id actor, d_delegateId = x,
                       d_startDate = start, d_endDate = end', d_isActive = True\<rparr> \<and>
            db' = db\<lparr>delegation := deactivateFor x (delegation db) @ [created]\<rparr> \<and>
            activeFor x (deactivateFor x (delegation db)) = [] \<and>
            activeFor x (delegation db') = [created] \<and>
            atMostOneActive (delegation db'))"
proof -
  let ?created = "\<lparr>d_id = newId, d_delegatorId = u_id actor, d_delegateId = x,
                       d_startDate = start, d_endDate = end', d_isActive = True\<rparr>"
  let ?db' = "db\<lparr>delegation := deactivateFor x (delegation db) @ [?created]\<rparr>"
  have inv: "atMostOneActive (delegation db)"
    using assms(1,2) by (rule reachable_atMostOneActive)
  have post: "delegations_POST db newId hdr body = (Inr ?created, ?db')"
    using assms(3-10) by (auto simp: delegations_POST_def truthy_def Let_def)
  have act: "activeFor x (delegation ?db') = [?created]"
    by (simp add: activeFor_append activeFor_deactivateFor_same) (simp add: activeFor_def)
  have inv': "atMostOneActive (delegation ?db')"
    using delegations_POST_invariant [OF inv, of newId hdr body] post by simp
  from inv post act inv' show ?thesis
    by (simp add: activeFor_deactivateFor_same)
qed

text \<open>
  The Tribe Lead gives R1 a second delegation while the first is active: the first is
  left inactive and the second is the only active one.
\<close>

theorem delegations_POST_single_active_witness:
  "atMostOneActive (delegation org) \<and>
   delegations_POST org ''d2'' (Some ''t1@corp'')
     \<lparr>b_delegateId = Some ''r1'', b_startDate = Some jan03, b_endDate = Some jan08\<rparr> =
     (Inr \<lparr>d_id = ''d2'', d_delegatorId = ''t1'', d_delegateId = ''r1'',
            d_startDate = jan03, d_endDate = jan08, d_isActive = True\<rparr>,
      org\<lparr>delegation :=
            [delegationD1\<lparr>d_isActive := False\<rparr>,
             \<lparr>d_id = ''d2'', d_delegatorId = ''t1'', d_delegateId = ''r1'',
              d_startDate = jan03, d_endDate = jan08, d_isActive = True\<rparr>]\<rparr>) \<and>
   activeFor ''r1''
     [delegationD1\<lparr>d_isActive := False\<rparr>,
      \<lparr>d_id = ''d2'', d_delegatorId = ''t1'', d_delegateId = ''r1'',
       d_startDate = jan03, d_endDate = jan08, d_isActive = True\<rparr>] =
     [\<lparr>d_id = ''d2'', d_delegatorId = ''t1'', d_delegateId = ''r1'',
       d_startDate = jan03, d_endDate = jan08, d_isActive = True\<rparr>]"
proof -
  have inv: "atMostOneActive (delegation org)"
    by (simp add: atMostOneActive_def activeFor_def org_defs)
  have h: "getUserFromRequest org (Some ''t1@corp'') = Some tribeLead"
    by (simp add: getUserFromRequest_def user_findUnique_email_def org_defs)
  have r: "u_role tribeLead = TRIBE_LEAD" "u_id tribeLead = ''t1''"
    by (simp_all add: tribeLead_def)
  have x: "user_findUnique_id org ''r1'' \<noteq> None"
    by (simp add: user_findUnique_id_def org_defs)
  have lt: "jan03 < jan08"
    by (simp add: jan03_def jan08_def)
  have old: "deactivateFor ''r1'' (delegation org) = [delegationD1\<lparr>d_isActive := False\<rparr>]"
    by (simp add: deactivateFor_def org_def delegationD1_def)
  show ?thesis
    using delegations_POST_single_active [OF reach_init inv h r(1) _ _ _ _ lt x,
        of "\<lparr>b_delegateId = Some ''r1'', b_startDate = Some jan03, b_endDate = Some jan08\<rparr>"
        "''d2''"]
    by (simp add: r(2) old)
qed

section \<open>Attendance ledger: the upsert\<close>

lemma users_only:
  assumes "users db' = users db"
  shows "getUserFromRequest db' hdr = getUserFromRequest db hdr"
    and "user_findUnique_id db' i = user_findUnique_id db i"
    and "canAllocateAttendance db' a t = canAllocateAttendance db a t"
  using assms
  by (simp_all add: getUserFromRequest_def user_findUnique_email_def user_findUnique_id_def
        canAllocateAttendance_def split: option.splits)

lemma filter_sameKey_unique:
  assumes "uniqueUserDate rs" and "find (sameKey u d) rs = Some old"
  shows "filter (sameKey u d) rs = [old]"
  using assms
proof (induction rs)
  case Nil
  then show ?case by simp
next
  case (Cons r rs)
  show ?case
  proof (cases "sameKey u d r")
    case True
    with Cons.prems have "old = r" by simp
    moreover have "filter (sameKey u d) rs = []"
      using Cons.prems(1) True
      by (auto simp: uniqueUserDate_def sameKey_def filter_empty_conv image_iff)
    ultimately show ?thesis using True by simp
  next
    case False
    with Cons show ?thesis by (simp add: uniqueUserDate_def)
  qed
qed

lemma filter_sameKey_update:
  "filter (sameKey u d)
     (map (\<lambda>r. if sameKey u d r then r\<lparr>a_status := s, a_notes := n\<rparr> else r) rs) =
   map (\<lambda>r. r\<lparr>a_status := s, a_notes := n\<rparr>) (filter (sameKey u d) rs)"
  by (induction rs) (simp_all add: sameKey_def)

lemma keys_update:
  "map (\<lambda>r. (a_userId r, a_date r))
     (map (\<lambda>r. if sameKey u d r then r\<lparr>a_status := s, a_notes := n\<rparr> else r) rs) =
   map (\<lambda>r. (a_userId r, a_date r)) rs"
  by (induction rs) simp_all

lemma find_sameKey_None:
  "find (sameKey u d) rs = None \<longleftrightarrow> (u, d) \<notin> set (map (\<lambda>r. (a_userId r, a_date r)) rs)"
  by (auto simp: find_None_iff sameKey_def)

lemma attendanceRecord_upsert_ok:
  assumes "uniqueUserDate (attendanceRecord db)"
    and "user_findUnique_id db u \<noteq> None \<or> find (sameKey u d) (attendanceRecord db) \<noteq> None"
  shows "\<exists>r db'. attendanceRecord_upsert db newId u d s n = Some (r, db') \<and>
           filter (sameKey u d) (attendanceRecord db') = [r] \<and>
           a_userId r = u \<and> a_date r = d \<and> a_status r = s \<and> a_notes r = n \<and>
           uniqueUserDate (attendanceRecord db') \<and>
           filter (\<lambda>r. \<not> sameKey u d r) (attendanceRecord db') =
             filter (\<lambda>r. \<not> sameKey u d r) (attendanceRecord db)"
proof (cases "find (sameKey u d) (attendanceRecord db)")
  case None
  then have none: "filter (sameKey u d) (attendanceRecord db) = []"
    by (simp add: find_None_iff filter_empty_conv)
  from None assms(2) have ex: "user_findUnique_id db u \<noteq> None" by simp
  from None assms(1) have "uniqueUserDate (attendanceRecord db @
      [\<lparr>a_id = newId, a_userId = u, a_date = d, a_status = s, a_notes = n\<rparr>])"
    by (simp add: uniqueUserDate_def find_sameKey_None)
  with None ex none show ?thesis
    by (simp add: attendanceRecord_upsert_def Let_def) (simp add: sameKey_def)
next
  case (Some old)
  have key: "sameKey u d old"
    using Some by (auto simp: find_Some_iff)
  have one: "filter (sameKey u d) (attendanceRecord db) = [old]"
    using assms(1) Some by (rule filter_sameKey_unique)
  have rest: "filter (\<lambda>r. \<not> sameKey u d r)
      (map (\<lambda>r. if sameKey u d r then r\<lparr>a_status := s, a_notes := n\<rparr> else r) rs) =
      filter (\<lambda>r. \<not> sameKey u d r) rs" for rs
    by (induction rs) (simp_all add: sameKey_def)
  have uniq: "uniqueUserDate
      (map (\<lambda>r. if sameKey u d r then r\<lparr>a_status := s, a_notes := n\<rparr> else r)
         (attendanceRecord db))"
    using assms(1) unfolding uniqueUserDate_def keys_update .
  from Some key one uniq show ?thesis
    by (simp add: attendanceRecord_upsert_def filter_sameKey_update rest)
       (simp add: sameKey_def)
qed

lemma update_same:
  assumes "\<forall>r \<in> set rs. sameKey u d r \<longrightarrow> a_status r = s \<and> a_notes r = n"
  shows "map (\<lambda>r. if sameKey u d r then r\<lparr>a_status := s, a_notes := n\<rparr> else r) rs = rs"
  using assms by (induction rs) auto

lemma attendanceRecord_upsert_again:
  assumes "filter (sameKey u d) (attendanceRecord db) = [r]"
    and "a_status r = s" and "a_notes r = n"
  shows "attendanceRecord_upsert db newId u d s n = Some (r, db)"
proof -
  have mem: "\<forall>x \<in> set (attendanceRecord db). sameKey u d x \<longrightarrow> x = r"
  proof (intro ballI impI)
    fix x assume "x \<in> set (attendanceRecord db)" "sameKey u d x"
    then have "x \<in> set (filter (sameKey u d) (attendanceRecord db))" by simp
    with assms(1) show "x = r" by simp
  qed
  have "r \<in> set (filter (sameKey u d) (attendanceRecord db))"
    using assms(1) by simp
  then have r: "r \<in> set (attendanceRecord db)" "sameKey u d r" by simp_all
  have f: "find (sameKey u d) (attendanceRecord db) = Some r"
  proof (cases "find (sameKey u d) (attendanceRecord db)")
    case None
    with r show ?thesis by (auto simp: find_None_iff)
  next
    case (Some x)
    then have "x \<in> set (attendanceRecord db)" "sameKey u d x"
      by (auto simp: find_Some_iff)
    with mem Some show ?thesis by simp
  qed
  have same: "map (\<lambda>x. if sameKey u d x then x\<lparr>a_status := s, a_notes := n\<rparr> else x)
      (attendanceRecord db) = attendanceRecord db"
    using mem assms(2,3) by (intro update_same) auto
  show ?thesis
    using f same assms(2,3) by (simp add: attendanceRecord_upsert_def)
qed

text \<open>
  Claim C6. On a store whose attendance table respects the key \<open>(userId, date)\<close>, two
  authorized \<open>POST /api/attendance\<close> requests for the same existing user \<open>u\<close> and date
  \<open>d\<close> both succeed; after each there is exactly one record for \<open>(u, d)\<close>, and it holds
  the status and the note of the latest request (an empty note is stored as no note).
  The key stays unique, the records of other keys are as before, and when the second
  request repeats the first, the store after it is the store before it.
\<close>

theorem attendance_POST_upsert_idempotent:
  assumes "uniqueUserDate (attendanceRecord db)"
    and "user_findUnique_id db u \<noteq> None"
    and "getUserFromRequest db hdr1 = Some actor1" and "canAllocateAttendance db actor1 u"
    and "getUserFromRequest db hdr2 = Some actor2" and "canAllocateAttendance db actor2 u"
    and "s1 \<in> {OFFICE, REMOTE, ABSENT, VACATION}" and "s2 \<in> {OFFICE, REMOTE, ABSENT, VACATION}"
  shows "\<exists>r1 db1 r2 db2.
           attendance_POST db id1 hdr1
             (Some \<lparr>p_userId = u, p_date = d, p_status = s1, p_notes = n1\<rparr>) =
             (Inr (r1, user_findUnique_id db u), db1) \<and>
           attendance_POST db1 id2 hdr2
             (Some \<lparr>p_userId = u, p_date = d, p_status = s2, p_notes = n2\<rparr>) =
             (Inr (r2, user_findUnique_id db u), db2) \<and>
           filter (sameKey u d) (attendanceRecord db1) = [r1] \<and>
           a_status r1 = s1 \<and> a_notes r1 = notesOrNull n1 \<and>
           filter (sameKey u d) (attendanceRecord db2) = [r2] \<and>
           a_userId r2 = u \<and> a_date r2 = d \<and>
           a_status r2 = s2 \<and> a_notes r2 = notesOrNull n2 \<and>
           uniqueUserDate (attendanceRecord db2) \<and>
           filter (\<lambda>r. \<not> sameKey u d r) (attendanceRecord db2) =
             filter (\<lambda>r. \<not> sameKey u d r) (attendanceRecord db) \<and>
           (s2 = s1 \<and> notesOrNull n2 = notesOrNull n1 \<longrightarrow> r2 = r1 \<and> db2 = db1)"
proof -
  obtain r1 db1 where
    up1: "attendanceRecord_upsert db id1 u d s1 (notesOrNull n1) = Some (r1, db1)"
    and one1: "filter (sameKey u d) (attendanceRecord db1) = [r1]"
    and val1: "a_status r1 = s1" "a_notes r1 = notesOrNull n1" "a_userId r1 = u"
    and uniq1: "uniqueUserDate (attendanceRecord db1)"
    and rest1: "filter (\<lambda>r. \<not> sameKey u d r) (attendanceRecord db1) =
             filter (\<lambda>r. \<not> sameKey u d r) (attendanceRecord db)"
    using attendanceRecord_upsert_ok [OF assms(1), of u d id1 s1 "notesOrNull n1"] assms(2)
    by auto
  have users1: "users db1 = users db"
    using attendanceRecord_upsert_frame [OF up1] by simp
  have post1: "attendance_POST db id1 hdr1
             (Some \<lparr>p_userId = u, p_date = d, p_status = s1, p_notes = n1\<rparr>) =
             (Inr (r1, user_findUnique_id db u), db1)"
    using assms(3,4,7) up1 val1(3) users_only(2) [OF users1]
    by (auto simp: attendance_POST_def includeUser_def)
  have ex1: "user_findUnique_id db1 u \<noteq> None"
    using assms(2) users_only(2) [OF users1] by simp
  obtain r2 db2 where
    up2: "attendanceRecord_upsert db1 id2 u d s2 (notesOrNull n2) = Some (r2, db2)"
    and one2: "filter (sameKey u d) (attendanceRecord db2) = [r2]"
    and val2: "a_status r2 = s2" "a_notes r2 = notesOrNull n2" "a_userId r2 = u"
      "a_date r2 = d"
    and uniq2: "uniqueUserDate (attendanceRecord db2)"
    and rest2: "filter (\<lambda>r. \<not> sameKey u d r) (attendanceRecord db2) =
             filter (\<lambda>r. \<not> sameKey u d r) (attendanceRecord db1)"
    using attendanceRecord_upsert_ok [OF uniq1, of u d id2 s2 "notesOrNull n2"] ex1
    by auto
  have users2: "users db2 = users db1"
    using attendanceRecord_upsert_frame [OF up2] by simp
  have post2: "attendance_POST db1 id2 hdr2
             (Some \<lparr>p_userId = u, p_date = d, p_status = s2, p_notes = n2\<rparr>) =
             (Inr (r2, user_findUnique_id db u), db2)"
    using assms(5,6,8) up2 val2(3) users_only [OF users1] users_only(2) [OF users2]
    by (auto simp: attendance_POST_def includeUser_def)
  have idem: "r2 = r1 \<and> db2 = db1" if "s2 = s1" "notesOrNull n2 = notesOrNull n1"
    using attendanceRecord_upsert_again [OF one1 val1(1,2), of id2] up2 that by simp
  from post1 post2 one1 val1 one2 val2 uniq2 rest1 rest2 idem show ?thesis
    by auto
qed

text \<open>
  R1 books the office for 2025-01-03 with an empty note, then the Tribe Lead changes
  the day to remote: one record for R1 and that day, remote, under the id of the first
  request.
\<close>

theorem attendance_POST_upsert_idempotent_witness:
  "\<exists>r1 db1 r2 db2.
     attendance_POST org ''a8'' (Some ''r1@corp'')
       (Some \<lparr>p_userId = ''r1'', p_date = jan03, p_status = OFFICE, p_notes = Some ''''\<rparr>) =
       (Inr (r1, Some reporterR1), db1) \<and>
     attendance_POST db1 ''a9'' (Some ''t1@corp'')
       (Some \<lparr>p_userId = ''r1'', p_date = jan03, p_status = REMOTE,
              p_notes = Some ''home''\<rparr>) =
       (Inr (r2, Some reporterR1), db2) \<and>
     filter (sameKey ''r1'' jan03) (attendanceRecord db2) = [r2] \<and>
     a_status r1 = OFFICE \<and> a_notes r1 = None \<and>
     a_status r2 = REMOTE \<and> a_notes r2 = Some ''home'' \<and>
     uniqueUserDate (attendanceRecord db2) \<and>
     attendanceRecord db2 =
       [recordA7,
        \<lparr>a_id = ''a8'', a_userId = ''r1'', a_date = jan03, a_status = REMOTE,
         a_notes = Some ''home''\<rparr>]"
proof -
  have uq: "uniqueUserDate (attendanceRecord org)"
    by (simp add: uniqueUserDate_def org_defs)
  have ex: "user_findUnique_id org ''r1'' = Some reporterR1"
    by (simp add: user_findUnique_id_def org_defs)
  have ex': "user_findUnique_id org ''r1'' \<noteq> None"
    by (simp add: ex)
  have h1: "getUserFromRequest org (Some ''r1@corp'') = Some reporterR1"
    by (simp add: getUserFromRequest_def user_findUnique_email_def org_defs)
  have h2: "getUserFromRequest org (Some ''t1@corp'') = Some tribeLead"
    by (simp add: getUserFromRequest_def user_findUnique_email_def org_defs)
  have c1: "canAllocateAttendance org reporterR1 ''r1''"
    by (simp add: canAllocateAttendance_def reporterR1_def)
  have c2: "canAllocateAttendance org tribeLead ''r1''"
    by (simp add: canAllocateAttendance_def isTribeLead_def tribeLead_def)
  have s: "OFFICE \<in> {OFFICE, REMOTE, ABSENT, VACATION}"
    "REMOTE \<in> {OFFICE, REMOTE, ABSENT, VACATION}"
    by simp_all
  have n: "notesOrNull (Some '''') = None" "notesOrNull (Some ''home'') = Some ''home''"
    by (simp_all add: notesOrNull_def truthy_def)
  have p1: "snd (attendance_POST org ''a8'' (Some ''r1@corp'')
       (Some \<lparr>p_userId = ''r1'', p_date = jan03, p_status = OFFICE, p_notes = Some ''''\<rparr>)) =
        org\<lparr>attendanceRecord :=
              [recordA7,
               \<lparr>a_id = ''a8'', a_userId = ''r1'', a_date = jan03, a_status = OFFICE,
                a_notes = None\<rparr>]\<rparr>"
    by (simp add: attendance_POST_def getUserFromRequest_def user_findUnique_email_def
          canAllocateAttendance_def n attendanceRecord_upsert_def sameKey_def Let_def
          includeUser_def user_findUnique_id_def org_defs)
  have p2: "attendanceRecord (snd (attendance_POST
       (org\<lparr>attendanceRecord :=
              [recordA7,
               \<lparr>a_id = ''a8'', a_userId = ''r1'', a_date = jan03, a_status = OFFICE,
                a_notes = None\<rparr>]\<rparr>) ''a9'' (Some ''t1@corp'')
       (Some \<lparr>p_userId = ''r1'', p_date = jan03, p_status = REMOTE,
              p_notes = Some ''home''\<rparr>))) =
       [recordA7,
        \<lparr>a_id = ''a8'', a_userId = ''r1'', a_date = jan03, a_status = REMOTE,
         a_notes = Some ''home''\<rparr>]"
    by (simp add: attendance_POST_def getUserFromRequest_def user_findUnique_email_def
          canAllocateAttendance_def isTribeLead_def n attendanceRecord_upsert_def
          sameKey_def Let_def includeUser_def user_findUnique_id_def org_defs)
  from attendance_POST_upsert_idempotent [OF uq ex' h1 c1 h2 c2 s,
        of "''a8''" jan03 "Some ''''" "''a9''" "Some ''home''"]
  obtain r1 db1 r2 db2 where
    a: "attendance_POST org ''a8'' (Some ''r1@corp'')
          (Some \<lparr>p_userId = ''r1'', p_date = jan03, p_status = OFFICE,
                 p_notes = Some ''''\<rparr>) = (Inr (r1, Some reporterR1), db1)"
    and b: "attendance_POST db1 ''a9'' (Some ''t1@corp'')
          (Some \<lparr>p_userId = ''r1'', p_date = jan03, p_status = REMOTE,
                 p_notes = Some ''home''\<rparr>) = (Inr (r2, Some reporterR1), db2)"
    and c: "filter (sameKey ''r1'' jan03) (attendanceRecord db2) = [r2]"
      "a_status r1 = OFFICE" "a_notes r1 = None" "a_status r2 = REMOTE"
      "a_notes r2 = Some ''home''" "uniqueUserDate (attendanceRecord db2)"
    unfolding ex n by blast
  from a p1 have db1: "db1 = org\<lparr>attendanceRecord :=
              [recordA7,
               \<lparr>a_id = ''a8'', a_userId = ''r1'', a_date = jan03, a_status = OFFICE,
                a_notes = None\<rparr>]\<rparr>"
    by simp
  from b p2 db1 have "attendanceRecord db2 =
       [recordA7,
        \<lparr>a_id = ''a8'', a_userId = ''r1'', a_date = jan03, a_status = REMOTE,
         a_notes = Some ''home''\<rparr>]"
    by simp
  with a b c show ?thesis by blast
qed

section \<open>Capacity engine: the week\<close>

lemma msPerDay_pos: "0 < msPerDay"
  by (simp add: msPerDay_def)

lemma div_eq_iff_int:
  fixes a q D :: int
  assumes "0 < D"
  shows "a div D = q \<longleftrightarrow> q * D \<le> a \<and> a \<le> q * D + (D - 1)"
proof
  assume q: "a div D = q"
  have "a = a div D * D + a mod D" by simp
  moreover have "0 \<le> a mod D" "a mod D < D" using assms by simp_all
  ultimately show "q * D \<le> a \<and> a \<le> q * D + (D - 1)"
    unfolding q by linarith
next
  assume b: "q * D \<le> a \<and> a \<le> q * D + (D - 1)"
  then have "0 \<le> a - q * D" "a - q * D < D" by simp_all
  then have "(a - q * D) div D = 0" by (rule div_pos_pos_trivial)
  moreover have "(r + q * D) div D = r div D + q" for r
    using assms by simp
  from this [of "a - q * D"] have "a div D = (a - q * D) div D + q"
    by simp
  ultimately show "a div D = q" by simp
qed

lemma day_startOfDay: "startOfDay t div msPerDay = t div msPerDay"
  using msPerDay_pos by (simp add: startOfDay_def)

lemma day_addDays: "addDays t n div msPerDay = t div msPerDay + n"
  using msPerDay_pos by (simp add: addDays_def)

lemma within_day:
  "startOfDay c \<le> a \<and> a \<le> endOfDay c \<longleftrightarrow> a div msPerDay = c div msPerDay"
  using div_eq_iff_int [OF msPerDay_pos, of a "c div msPerDay"]
  by (simp add: startOfDay_def endOfDay_def)

lemma back_to_monday:
  fixes m :: int
  assumes "0 \<le> m" and "m < 7"
  shows "(if m = 0 then - 6 else 1 - m) = - ((m + 6) mod 7)"
  using assms by presburger

lemma monday_offset:
  "(if (x + 4) mod 7 = 0 then - 6 else 1 - (x + 4) mod 7) = - (((x + 4) mod 7 + 6) mod 7)"
  for x :: int
  by (rule back_to_monday) simp_all

lemma weekday_number:
  fixes x k :: int
  assumes "i < 5"
  shows "(x - ((x + 4) mod 7 + 6) mod 7 + 7 * k + int i + 4) mod 7 = int i + 1"
proof -
  define m where "m = (x + 4) mod 7"
  define q where "q = (x + 4) div 7"
  have x: "x + 4 = 7 * q + m"
    by (simp add: m_def q_def)
  have m: "0 \<le> m" "m < 7"
    by (simp_all add: m_def)
  define c where "c = (if m = 0 then - 6 else (1::int))"
  have off: "m - (m + 6) mod 7 = c"
    using back_to_monday [OF m] by (simp add: c_def split: if_splits)
  have e: "x - (m + 6) mod 7 + 7 * k + int i + 4 = (c + int i) + 7 * (q + k)"
  proof -
    define r where "r = (m + 6) mod 7"
    have "x + 4 = 7 * q + m" "m - r = c"
      using x off by (simp_all add: r_def)
    then have "x - r + 7 * k + int i + 4 = (c + int i) + (7 * q + 7 * k)"
      by linarith
    then show ?thesis
      by (simp add: r_def distrib_left)
  qed
  have "(x - (m + 6) mod 7 + 7 * k + int i + 4) mod 7 = ((c + int i) + 7 * (q + k)) mod 7"
    by (simp only: e)
  also have "\<dots> = (c + int i) mod 7"
    by (rule mod_mult_self2)
  also have "\<dots> = int i + 1"
    using assms by (cases "m = 0") (simp_all add: c_def, presburger)
  finally show ?thesis
    by (simp add: m_def)
qed

lemma day_mondayOf:
  "mondayOf today weekOffset div msPerDay =
     today div msPerDay - (getDay today + 6) mod 7 + 7 * weekOffset"
  by (simp add: mondayOf_def Let_def day_addDays day_startOfDay getDay_def monday_offset)

lemma getDay_weekday:
  "i < 5 \<Longrightarrow> getDay (addDays (mondayOf today weekOffset) (int i)) = int i + 1"
  unfolding getDay_def day_addDays day_mondayOf by (rule weekday_number)

lemma bookingsOn_day:
  "bookingsOn db currentDate =
     int (length (filter (\<lambda>r. a_status r = OFFICE \<and>
                              a_date r div msPerDay = currentDate div msPerDay)
                    (attendanceRecord db)))"
proof -
  have "(startOfDay currentDate \<le> a_date r \<and> a_date r \<le> endOfDay currentDate \<and>
             a_status r = OFFICE) =
        (a_status r = OFFICE \<and> a_date r div msPerDay = currentDate div msPerDay)" for r
    using within_day [of currentDate "a_date r"] by auto
  then have "filter (\<lambda>r. startOfDay currentDate \<le> a_date r \<and>
                 a_date r \<le> endOfDay currentDate \<and> a_status r = OFFICE) (attendanceRecord db) =
      filter (\<lambda>r. a_status r = OFFICE \<and> a_date r div msPerDay = currentDate div msPerDay)
        (attendanceRecord db)"
    by (intro filter_cong refl)
  then show ?thesis unfolding bookingsOn_def by (rule arg_cong)
qed

text \<open>
  The double arithmetic of \<open>utilizationPercent\<close>. \<open>toDouble\<close> is within a relative
  distance of \<open>2 ^ - 53\<close> of its argument, so the double product is within three such
  distances of \<open>100 * booked / capacity\<close>; off the halfway points that is too little to
  change what \<open>Math.round\<close> returns.
\<close>

lemma pow2_powi: "pow2 e = 2 powi e"
  by (simp add: pow2_def power_int_def field_simps)

lemma pow2_pos: "0 < pow2 e"
  by (simp add: pow2_powi)

lemma pow2_add: "pow2 (a + b) = pow2 a * pow2 b"
  by (simp add: pow2_powi power_int_add)

lemma pow2_nat: "pow2 (int n) = 2 ^ n"
  by (simp add: pow2_powi)

lemma roundHalfEven_close: "\<bar>of_int (roundHalfEven x) - x\<bar> \<le> 1 / 2"
proof -
  have "of_int \<lfloor>x\<rfloor> \<le> x" "x < of_int \<lfloor>x\<rfloor> + 1"
    by linarith+
  then show ?thesis
    by (auto simp: roundHalfEven_def Let_def abs_le_iff)
qed

lemma binade_bounds:
  assumes "0 < q"
  shows "pow2 (binade q) \<le> q \<and> q < 2 * pow2 (binade q)"
proof -
  obtain a b where ab: "quotient_of q = (a, b)"
    by (cases "quotient_of q")
  have b: "0 < b"
    using quotient_of_denom_pos [OF ab] .
  have q: "q = of_int a / of_int b"
    using quotient_of_div [OF ab] .
  have a: "0 < a"
    using assms b unfolding q by (simp add: zero_less_divide_iff)
  define la where "la = bitlen a"
  define lb where "lb = bitlen b"
  have la: "2 ^ nat (la - 1) \<le> a" "a < 2 ^ nat la" "1 \<le> la"
    using bitlen_bounds [OF a] a by (auto simp: la_def bitlen_alt_def)
  have lb: "2 ^ nat (lb - 1) \<le> b" "b < 2 ^ nat lb" "1 \<le> lb"
    using bitlen_bounds [OF b] b by (auto simp: lb_def bitlen_alt_def)
  have ra: "pow2 (la - 1) \<le> of_int a" "of_int a < pow2 la"
  proof -
    have "(of_int (2 ^ nat (la - 1)) :: rat) \<le> of_int a"
      using la(1) by (simp only: of_int_le_iff)
    then show "pow2 (la - 1) \<le> of_int a"
      using la(3) by (simp add: pow2_def)
    have "(of_int a :: rat) < of_int (2 ^ nat la)"
      using la(2) by (simp only: of_int_less_iff)
    then show "of_int a < pow2 la"
      using la(3) by (simp add: pow2_def)
  qed
  have rb: "pow2 (lb - 1) \<le> of_int b" "of_int b < pow2 lb"
  proof -
    have "(of_int (2 ^ nat (lb - 1)) :: rat) \<le> of_int b"
      using lb(1) by (simp only: of_int_le_iff)
    then show "pow2 (lb - 1) \<le> of_int b"
      using lb(3) by (simp add: pow2_def)
    have "(of_int b :: rat) < of_int (2 ^ nat lb)"
      using lb(2) by (simp only: of_int_less_iff)
    then show "of_int b < pow2 lb"
      using lb(3) by (simp add: pow2_def)
  qed
  define k where "k = la - lb"
  have bpos: "(0::rat) < of_int b"
    using b by simp
  have upper: "q < 2 * pow2 k"
  proof -
    have "of_int a < pow2 la"
      by (rule ra(2))
    also have "pow2 la = 2 * pow2 k * pow2 (lb - 1)"
      using pow2_add [of "k + 1" "lb - 1"] pow2_add [of k 1]
      by (simp add: k_def pow2_def)
    also have "\<dots> \<le> 2 * pow2 k * of_int b"
      using rb(1) pow2_pos [of k] by simp
    finally show ?thesis
      unfolding q using bpos by (simp add: pos_divide_less_eq)
  qed
  have lower: "pow2 (k - 1) < q"
  proof -
    have "pow2 (k - 1) * of_int b < pow2 (k - 1) * pow2 lb"
      using rb(2) pow2_pos [of "k - 1"] by simp
    also have "\<dots> = pow2 (la - 1)"
      using pow2_add [of "k - 1" lb] by (simp add: k_def)
    also have "\<dots> \<le> of_int a"
      by (rule ra(1))
    finally show ?thesis
      unfolding q using bpos by (simp add: pos_less_divide_eq)
  qed
  have two: "pow2 k = 2 * pow2 (k - 1)"
    using pow2_add [of "k - 1" 1] by (simp add: pow2_def)
  have bin: "binade q = (if pow2 k \<le> q then k else k - 1)"
    by (simp add: binade_def ab la_def lb_def k_def)
  show ?thesis
  proof (cases "pow2 k \<le> q")
    case True
    with upper bin show ?thesis by simp
  next
    case False
    with lower bin two show ?thesis by simp
  qed
qed

lemma toDouble_error:
  assumes "0 < q"
  shows "\<bar>toDouble q - q\<bar> \<le> q / 2 ^ 53"
proof -
  define e where "e = binade q - 52"
  define s where "s = pow2 e"
  define m where "m = roundHalfEven (q / s)"
  have s: "0 < s"
    by (simp add: s_def pow2_pos)
  have td: "toDouble q = of_int m * s"
    using assms by (simp add: toDouble_def Let_def m_def s_def e_def)
  have "\<bar>of_int m - q / s\<bar> \<le> 1 / 2"
    unfolding m_def by (rule roundHalfEven_close)
  then have "\<bar>of_int m - q / s\<bar> * s \<le> 1 / 2 * s"
    using s by (simp only: mult_le_cancel_right_pos)
  moreover have "\<bar>of_int m - q / s\<bar> * s = \<bar>of_int m * s - q\<bar>"
  proof -
    have "(of_int m - q / s) * s = of_int m * s - q"
      using s by (simp add: left_diff_distrib)
    moreover have "\<bar>of_int m - q / s\<bar> * s = \<bar>(of_int m - q / s) * s\<bar>"
      using s by (simp add: abs_mult)
    ultimately show ?thesis
      by simp
  qed
  ultimately have close: "\<bar>of_int m * s - q\<bar> \<le> s / 2"
    by simp
  have "pow2 (binade q) = s * 2 ^ 52"
    using pow2_add [of e 52] by (simp add: s_def e_def pow2_def)
  then have "s * 2 ^ 52 \<le> q"
    using binade_bounds [OF assms] by simp
  then have "s / 2 \<le> q / 2 ^ 53"
    by (simp add: field_simps)
  with close td show ?thesis
    by simp
qed

lemma toDouble_zero: "toDouble 0 = 0"
  by (simp add: toDouble_def)

lemma double_percent_close:
  assumes "0 < c" and "0 \<le> b"
  shows "\<bar>toDouble (toDouble (of_int b / of_int c) * 100) - 100 * (of_int b / of_int c)\<bar>
           \<le> 3 * (100 * (of_int b / of_int c)) / 2 ^ 53"
proof (cases "b = 0")
  case True
  then show ?thesis by (simp add: toDouble_zero)
next
  case False
  define x0 :: rat where "x0 = of_int b / of_int c"
  define u :: rat where "u = 1 / 2 ^ 53"
  define d1 where "d1 = toDouble x0"
  define p where "p = d1 * 100"
  define d2 where "d2 = toDouble p"
  have x0: "0 < x0"
    using assms False by (simp add: x0_def zero_less_divide_iff)
  have u: "0 < u" "u \<le> 1"
    by (simp_all add: u_def)
  have e1: "\<bar>d1 - x0\<bar> \<le> x0 * u"
    using toDouble_error [OF x0] by (simp add: d1_def u_def)
  have "x0 * u < x0"
    using x0 by (simp add: u_def)
  with e1 have d1: "0 < d1"
    by (simp add: abs_le_iff)
  then have p: "0 < p"
    by (simp add: p_def)
  have e2: "\<bar>d2 - p\<bar> \<le> p * u"
    using toDouble_error [OF p] by (simp add: d2_def u_def)
  have pp: "\<bar>p - 100 * x0\<bar> \<le> 100 * x0 * u"
    using e1 by (simp add: p_def abs_le_iff)
  then have pu: "p \<le> 100 * x0 + 100 * x0 * u"
    by (simp add: abs_le_iff)
  have "p * u \<le> (100 * x0 + 100 * x0 * u) * u"
    using pu u(1) by (simp only: mult_le_cancel_right_pos)
  also have "\<dots> \<le> (100 * x0 + 100 * x0 * 1) * u"
  proof -
    have "100 * x0 * u \<le> 100 * x0 * 1"
      using x0 u(2) by (intro mult_left_mono) simp_all
    then show ?thesis
      using u(1) by (intro mult_right_mono add_left_mono) simp_all
  qed
  finally have "p * u \<le> 2 * (100 * x0) * u"
    by simp
  with e2 pp have "\<bar>d2 - 100 * x0\<bar> \<le> 3 * (100 * x0) * u"
    by (simp add: abs_le_iff)
  then show ?thesis
    by (simp add: d2_def p_def d1_def x0_def u_def)
qed

lemma utilizationPercent_exact:
  assumes c: "0 < c" and b: "0 \<le> b" "b \<le> 2 ^ 43"
    and notie: "(200 * b + c) mod (2 * c) \<noteq> 0"
  shows "utilizationPercent b c = (200 * b + c) div (2 * c)"
proof -
  define x :: rat where "x = 100 * (of_int b / of_int c)"
  define d2 where "d2 = toDouble (toDouble (of_int b / of_int c) * 100)"
  define n where "n = (200 * b + c) div (2 * c)"
  define r where "r = (200 * b + c) mod (2 * c)"
  have cr: "(0::rat) < of_int c"
    using c by simp
  have r: "1 \<le> r" "r \<le> 2 * c - 1"
  proof -
    have "0 \<le> r" "r < 2 * c"
      using c by (simp_all add: r_def)
    with notie show "1 \<le> r" "r \<le> 2 * c - 1"
      by (simp_all add: r_def)
  qed
  have "200 * b + c = n * (2 * c) + r"
    unfolding n_def r_def by (rule div_mult_mod_eq [symmetric])
  then have "(of_int (200 * b + c) :: rat) = of_int (n * (2 * c) + r)"
    by (simp only:)
  then have split: "200 * of_int b + of_int c = of_int n * (2 * of_int c) + (of_int r :: rat)"
    by simp
  have half: "x + 1 / 2 = of_int n + of_int r / (2 * of_int c)"
  proof -
    have "x + 1 / 2 = (200 * of_int b + of_int c) / (2 * of_int c)"
      using cr by (simp add: x_def field_simps)
    also have "\<dots> = (of_int n * (2 * of_int c) + of_int r) / (2 * of_int c)"
      by (simp only: split)
    also have "\<dots> = of_int n + of_int r / (2 * of_int c)"
      using cr by (simp add: field_simps)
    finally show ?thesis .
  qed
  have rr: "(1::rat) \<le> of_int r" "(of_int r :: rat) \<le> 2 * of_int c - 1"
  proof -
    have "(of_int 1 :: rat) \<le> of_int r"
      using r(1) by (simp only: of_int_le_iff)
    then show "(1::rat) \<le> of_int r" by simp
    have "(of_int r :: rat) \<le> of_int (2 * c - 1)"
      using r(2) by (simp only: of_int_le_iff)
    then show "(of_int r :: rat) \<le> 2 * of_int c - 1" by simp
  qed
  define h where "h = 1 / (2 * rat_of_int c)"
  define t where "t = 3 * x / 2 ^ 53"
  have lo: "of_int n + h \<le> x + 1 / 2"
    unfolding half h_def using rr(1) cr by (simp add: field_simps)
  have hi: "x + 1 / 2 \<le> of_int n + 1 - h"
  proof -
    have "of_int r / (2 * of_int c) \<le> (2 * of_int c - 1) / (2 * rat_of_int c)"
      using rr(2) cr by (intro divide_right_mono) simp_all
    also have "\<dots> = 1 - h"
      using cr by (simp add: diff_divide_distrib h_def)
    finally show ?thesis
      unfolding half by simp
  qed
  have close: "\<bar>d2 - x\<bar> \<le> t"
    using double_percent_close [OF c b(1)] by (simp add: d2_def x_def t_def)
  have small: "t < h"
  proof -
    have "(of_int b :: rat) \<le> of_int (2 ^ 43)"
      using b(2) by (simp only: of_int_le_iff)
    then have "(of_int b :: rat) \<le> 2 ^ 43"
      by simp
    then have "600 * (of_int b :: rat) < 2 ^ 53"
      by simp
    then show ?thesis
      using cr by (simp add: x_def t_def h_def field_simps)
  qed
  from close small have "\<bar>d2 - x\<bar> < h"
    by (rule le_less_trans)
  then have "x - h < d2" "d2 < x + h"
    by linarith+
  with lo hi have "of_int n \<le> d2 + 1 / 2" "d2 + 1 / 2 < of_int n + 1"
    by linarith+
  then have "\<lfloor>d2 + 1 / 2\<rfloor> = n"
    by (rule floor_unique)
  then show ?thesis
    using c by (simp add: utilizationPercent_def Math_round_def d2_def n_def)
qed

lemma exact_round_half_up:
  assumes "0 < c"
  shows "\<lfloor>100 * (rat_of_int b / rat_of_int c) + 1 / 2\<rfloor> = (200 * b + c) div (2 * c)"
proof -
  have "100 * (rat_of_int b / rat_of_int c) + 1 / 2 =
      rat_of_int (200 * b + c) / rat_of_int (2 * c)"
    using assms by (simp add: field_simps)
  then show ?thesis
    by (simp only: floor_divide_of_int_eq)
qed

lemma double_percent_near:
  assumes c: "0 < c" and b: "0 \<le> b" "b \<le> 2 ^ 43"
  shows "\<bar>toDouble (toDouble (of_int b / of_int c) * 100) - 100 * (of_int b / of_int c)\<bar>
           < 1 / (2 * rat_of_int c)"
proof -
  define x :: rat where "x = 100 * (of_int b / of_int c)"
  define d2 where "d2 = toDouble (toDouble (of_int b / of_int c) * 100)"
  define h where "h = 1 / (2 * rat_of_int c)"
  define t where "t = 3 * x / 2 ^ 53"
  have cr: "(0::rat) < of_int c"
    using c by simp
  have close: "\<bar>d2 - x\<bar> \<le> t"
    using double_percent_close [OF c b(1)] by (simp add: d2_def x_def t_def)
  have small: "t < h"
  proof -
    have "(of_int b :: rat) \<le> of_int (2 ^ 43)"
      using b(2) by (simp only: of_int_le_iff)
    then have "(of_int b :: rat) \<le> 2 ^ 43"
      by simp
    then have "600 * (of_int b :: rat) < 2 ^ 53"
      by simp
    then show ?thesis
      using cr by (simp add: x_def t_def h_def field_simps)
  qed
  from close small have "\<bar>d2 - x\<bar> < h"
    by (rule le_less_trans)
  then show ?thesis
    by (simp only: d2_def x_def h_def)
qed

lemma utilizationPercent_tie:
  assumes c: "0 < c" and b: "0 \<le> b" "b \<le> 2 ^ 43"
    and tie: "(200 * b + c) mod (2 * c) = 0"
  shows "utilizationPercent b c = (200 * b + c) div (2 * c) \<or>
         utilizationPercent b c = (200 * b + c) div (2 * c) - 1"
proof -
  define x :: rat where "x = 100 * (of_int b / of_int c)"
  define d2 where "d2 = toDouble (toDouble (of_int b / of_int c) * 100)"
  define n where "n = (200 * b + c) div (2 * c)"
  define h where "h = 1 / (2 * rat_of_int c)"
  have cr: "(1::rat) \<le> of_int c"
    using c by simp
  have h: "0 < h" "h \<le> 1 / 2"
    using cr by (simp_all add: h_def field_simps)
  have "200 * b + c = n * (2 * c) + (200 * b + c) mod (2 * c)"
    unfolding n_def by (rule div_mult_mod_eq [symmetric])
  then have "200 * b + c = n * (2 * c)"
    using tie by simp
  then have "(of_int (200 * b + c) :: rat) = of_int (n * (2 * c))"
    by (simp only:)
  then have split: "200 * of_int b + of_int c = of_int n * (2 * (of_int c :: rat))"
    by simp
  have half: "x + 1 / 2 = of_int n"
  proof -
    have "x + 1 / 2 = (200 * of_int b + of_int c) / (2 * of_int c)"
      using cr by (simp add: x_def field_simps)
    also have "\<dots> = (of_int n * (2 * of_int c)) / (2 * of_int c)"
      by (simp only: split)
    also have "\<dots> = of_int n"
      using cr by simp
    finally show ?thesis .
  qed
  have "\<bar>d2 - x\<bar> < h"
    using double_percent_near [OF c b] by (simp only: d2_def x_def h_def)
  then have "x - h < d2" "d2 < x + h"
    by linarith+
  with half h have near: "of_int n - 1 \<le> d2 + 1 / 2" "d2 + 1 / 2 < of_int n + 1"
    by linarith+
  have "\<lfloor>d2 + 1 / 2\<rfloor> = n \<or> \<lfloor>d2 + 1 / 2\<rfloor> = n - 1"
  proof (cases "of_int n \<le> d2 + 1 / 2")
    case True
    with near(2) have "\<lfloor>d2 + 1 / 2\<rfloor> = n"
      by (intro floor_unique)
    then show ?thesis ..
  next
    case False
    then have "d2 + 1 / 2 < of_int (n - 1) + 1"
      by simp
    moreover have "of_int (n - 1) \<le> d2 + 1 / 2"
      using near(1) by simp
    ultimately have "\<lfloor>d2 + 1 / 2\<rfloor> = n - 1"
      by (intro floor_unique)
    then show ?thesis ..
  qed
  then show ?thesis
    using c by (simp add: utilizationPercent_def Math_round_def d2_def n_def)
qed

lemma utilizationPercent_nearest:
  assumes c: "0 < c" and b: "0 \<le> b" "b \<le> 2 ^ 43"
  shows "utilizationPercent b c = \<lfloor>100 * (rat_of_int b / rat_of_int c) + 1 / 2\<rfloor> \<or>
         utilizationPercent b c = \<lfloor>100 * (rat_of_int b / rat_of_int c) + 1 / 2\<rfloor> - 1"
proof (cases "(200 * b + c) mod (2 * c) = 0")
  case True
  show ?thesis
    unfolding exact_round_half_up [OF c] using utilizationPercent_tie [OF c b True] .
next
  case False
  show ?thesis
    unfolding exact_round_half_up [OF c] using utilizationPercent_exact [OF c b False] ..
qed

lemma findMany_Nil: "officeCapacity_findMany db = [] \<longleftrightarrow> officeCapacity db = []"
proof -
  have "length (officeCapacity_findMany db) = length (officeCapacity db)"
    by (simp add: officeCapacity_findMany_def)
  then show ?thesis
    by (simp only: length_0_conv [symmetric])
qed

lemma find_sort_key:
  "find (\<lambda>c. f c = k) (sort_key f xs) = find (\<lambda>c. f c = k) xs"
proof -
  have "find P ys = (case filter P ys of [] \<Rightarrow> None | y # _ \<Rightarrow> Some y)"
    for P and ys :: "'a list"
    by (induction ys) simp_all
  then show ?thesis
    by (simp add: sort_key_stable)
qed

lemma sorted_defaults:
  "sort_key c_dayOfWeek defaultCapacities =
     [\<lparr>c_dayOfWeek = ''Friday'', c_capacity = 50\<rparr>,
      \<lparr>c_dayOfWeek = ''Monday'', c_capacity = 20\<rparr>,
      \<lparr>c_dayOfWeek = ''Thursday'', c_capacity = 20\<rparr>,
      \<lparr>c_dayOfWeek = ''Tuesday'', c_capacity = 10\<rparr>,
      \<lparr>c_dayOfWeek = ''Wednesday'', c_capacity = 50\<rparr>]"
  by code_simp

lemma utilizationPercent_example: "utilizationPercent 12 10 = 120"
  by code_simp

text \<open>
  The double-precision product is not always the exact one: \<open>201 / 200\<close> is rounded to
  a double just below 1.005, its product with 100 to a double just below 100.5, and
  \<open>Math.round\<close> gives 100 where the exact quotient 100.5 would give 101. In the same way
  23 of 40 gives 57, not 58.
\<close>

lemma utilizationPercent_double_rounding: "utilizationPercent 201 200 = 100"
  by code_simp

lemma utilizationPercent_halfway: "utilizationPercent 23 40 = 57"
  by code_simp

text \<open>
  Claim C8, as the code has it. For a Chapter Lead or the Tribe Lead,
  \<open>GET /api/office-capacity\<close> returns five entries, Monday to Friday of the week of
  \<open>today\<close> shifted by \<open>weekOffset\<close> weeks (dates read in UTC), and the settings in the
  order of their day names. In each entry \<open>booked\<close> is the number of attendance records
  with status office whose date falls on the day of the entry, \<open>capacity\<close> is the
  setting of that weekday (0 without one), \<open>available = max (capacity - booked) 0\<close> and
  \<open>isOverbooked = (capacity < booked)\<close>. \<open>utilizationPercent\<close> is 0 unless the capacity
  is positive, and then \<open>Math.round\<close> of the double-precision product
  \<open>(booked / capacity) * 100\<close>. For up to \<open>2 ^ 43\<close> bookings that is the exact quotient
  \<open>100 * booked / capacity\<close> rounded to the nearest integer whenever the quotient is
  not halfway between two integers; at a halfway point it is one of the two
  neighbouring integers, the upper or the one below, as the double rounding falls.
  Capacity 10 with 12 booked gives 0 available, overbooked, 120 percent. An empty
  settings table is filled with the defaults 20, 10, 50, 20, 50 before the week is
  computed; a table with settings is left as it is.
\<close>

theorem office_capacity_GET_week:
  assumes "getUserFromRequest db hdr = Some actor"
    and "u_role actor = CHAPTER_LEAD \<or> u_role actor = TRIBE_LEAD"
  shows "\<exists>weekData db'.
     office_capacity_GET db today hdr weekOffset = (Inr (weekData, officeCapacity_findMany db'), db') \<and>
     db' = (if officeCapacity db = [] then db\<lparr>officeCapacity := defaultCapacities\<rparr> else db) \<and>
     length weekData = 5 \<and>
     (\<forall>i<5.
        w_day (weekData ! i) = dayNames ! i \<and>
        getDay (w_date (weekData ! i)) = int i + 1 \<and>
        w_date (weekData ! i) div msPerDay =
          today div msPerDay - (getDay today + 6) mod 7 + 7 * weekOffset + int i \<and>
        w_booked (weekData ! i) =
          int (length (filter (\<lambda>r. a_status r = OFFICE \<and>
                 a_date r div msPerDay = w_date (weekData ! i) div msPerDay)
                 (attendanceRecord db))) \<and>
        w_capacity (weekData ! i) =
          (case find (\<lambda>c. c_dayOfWeek c = dayNames ! i) (officeCapacity db') of
             None \<Rightarrow> 0 | Some c \<Rightarrow> c_capacity c) \<and>
        w_available (weekData ! i) =
          max (w_capacity (weekData ! i) - w_booked (weekData ! i)) 0 \<and>
        w_isOverbooked (weekData ! i) = (w_capacity (weekData ! i) < w_booked (weekData ! i)) \<and>
        w_utilizationPercent (weekData ! i) =
          (if 0 < w_capacity (weekData ! i)
           then Math_round (toDouble (toDouble (of_int (w_booked (weekData ! i)) /
                                               of_int (w_capacity (weekData ! i))) * 100))
           else 0) \<and>
        (0 < w_capacity (weekData ! i) \<and> w_booked (weekData ! i) \<le> 2 ^ 43 \<and>
         (200 * w_booked (weekData ! i) + w_capacity (weekData ! i)) mod
           (2 * w_capacity (weekData ! i)) \<noteq> 0 \<longrightarrow>
           w_utilizationPercent (weekData ! i) =
             \<lfloor>100 * (rat_of_int (w_booked (weekData ! i)) /
                          rat_of_int (w_capacity (weekData ! i))) + 1 / 2\<rfloor>) \<and>
        (0 < w_capacity (weekData ! i) \<and> w_booked (weekData ! i) \<le> 2 ^ 43 \<longrightarrow>
           w_utilizationPercent (weekData ! i) =
             \<lfloor>100 * (rat_of_int (w_booked (weekData ! i)) /
                          rat_of_int (w_capacity (weekData ! i))) + 1 / 2\<rfloor> \<or>
           w_utilizationPercent (weekData ! i) =
             \<lfloor>100 * (rat_of_int (w_booked (weekData ! i)) /
                          rat_of_int (w_capacity (weekData ! i))) + 1 / 2\<rfloor> - 1) \<and>
        (w_capacity (weekData ! i) = 10 \<and> w_booked (weekData ! i) = 12 \<longrightarrow>
           w_available (weekData ! i) = 0 \<and> w_isOverbooked (weekData ! i) \<and>
           w_utilizationPercent (weekData ! i) = 120)) \<and>
     (officeCapacity db = [] \<longrightarrow> map w_capacity weekData = [20, 10, 50, 20, 50])"
proof -
  define db' where
    "db' = (if officeCapacity db = [] then db\<lparr>officeCapacity := defaultCapacities\<rparr> else db)"
  define monday where "monday = mondayOf today weekOffset"
  define weekData where
    "weekData = map (weekDayEntry db' (officeCapacity_findMany db') monday) [0..<5]"
  have res: "office_capacity_GET db today hdr weekOffset =
      (Inr (weekData, officeCapacity_findMany db'), db')"
    using assms
    by (auto simp: office_capacity_GET_def Let_def weekData_def monday_def db'_def
          findMany_Nil)
  have att: "attendanceRecord db' = attendanceRecord db"
    by (simp add: db'_def)
  have len: "length weekData = 5"
    by (simp add: weekData_def)
  have entry: "weekData ! i = weekDayEntry db' (officeCapacity_findMany db') monday i"
    if "i < 5" for i
    using that by (simp add: weekData_def)
  have day: "w_day (weekData ! i) = dayNames ! i"
    and date: "w_date (weekData ! i) = addDays monday (int i)"
    and booked: "w_booked (weekData ! i) = bookingsOn db' (addDays monday (int i))"
    and cap: "w_capacity (weekData ! i) =
          (case find (\<lambda>c. c_dayOfWeek c = dayNames ! i) (officeCapacity db') of
             None \<Rightarrow> 0 | Some c \<Rightarrow> c_capacity c)"
    and avail: "w_available (weekData ! i) =
          max (w_capacity (weekData ! i) - w_booked (weekData ! i)) 0"
    and over: "w_isOverbooked (weekData ! i) =
          (w_capacity (weekData ! i) < w_booked (weekData ! i))"
    and util: "w_utilizationPercent (weekData ! i) =
          utilizationPercent (w_booked (weekData ! i)) (w_capacity (weekData ! i))"
    if "i < 5" for i
    unfolding entry [OF that]
    by (simp_all add: weekDayEntry_def Let_def max_def officeCapacity_findMany_def
          find_sort_key)
  have each: "\<forall>i<5.
        w_day (weekData ! i) = dayNames ! i \<and>
        getDay (w_date (weekData ! i)) = int i + 1 \<and>
        w_date (weekData ! i) div msPerDay =
          today div msPerDay - (getDay today + 6) mod 7 + 7 * weekOffset + int i \<and>
        w_booked (weekData ! i) =
          int (length (filter (\<lambda>r. a_status r = OFFICE \<and>
                 a_date r div msPerDay = w_date (weekData ! i) div msPerDay)
                 (attendanceRecord db))) \<and>
        w_capacity (weekData ! i) =
          (case find (\<lambda>c. c_dayOfWeek c = dayNames ! i) (officeCapacity db') of
             None \<Rightarrow> 0 | Some c \<Rightarrow> c_capacity c) \<and>
        w_available (weekData ! i) =
          max (w_capacity (weekData ! i) - w_booked (weekData ! i)) 0 \<and>
        w_isOverbooked (weekData ! i) = (w_capacity (weekData ! i) < w_booked (weekData ! i)) \<and>
        w_utilizationPercent (weekData ! i) =
          (if 0 < w_capacity (weekData ! i)
           then Math_round (toDouble (toDouble (of_int (w_booked (weekData ! i)) /
                                               of_int (w_capacity (weekData ! i))) * 100))
           else 0) \<and>
        (0 < w_capacity (weekData ! i) \<and> w_booked (weekData ! i) \<le> 2 ^ 43 \<and>
         (200 * w_booked (weekData ! i) + w_capacity (weekData ! i)) mod
           (2 * w_capacity (weekData ! i)) \<noteq> 0 \<longrightarrow>
           w_utilizationPercent (weekData ! i) =
             \<lfloor>100 * (rat_of_int (w_booked (weekData ! i)) /
                          rat_of_int (w_capacity (weekData ! i))) + 1 / 2\<rfloor>) \<and>
        (0 < w_capacity (weekData ! i) \<and> w_booked (weekData ! i) \<le> 2 ^ 43 \<longrightarrow>
           w_utilizationPercent (weekData ! i) =
             \<lfloor>100 * (rat_of_int (w_booked (weekData ! i)) /
                          rat_of_int (w_capacity (weekData ! i))) + 1 / 2\<rfloor> \<or>
           w_utilizationPercent (weekData ! i) =
             \<lfloor>100 * (rat_of_int (w_booked (weekData ! i)) /
                          rat_of_int (w_capacity (weekData ! i))) + 1 / 2\<rfloor> - 1) \<and>
        (w_capacity (weekData ! i) = 10 \<and> w_booked (weekData ! i) = 12 \<longrightarrow>
           w_available (weekData ! i) = 0 \<and> w_isOverbooked (weekData ! i) \<and>
           w_utilizationPercent (weekData ! i) = 120)"
  proof (intro allI impI)
    fix i :: nat
    assume i: "i < 5"
    have d: "getDay (w_date (weekData ! i)) = int i + 1"
      unfolding date [OF i] monday_def using i by (rule getDay_weekday)
    have w: "w_date (weekData ! i) div msPerDay =
          today div msPerDay - (getDay today + 6) mod 7 + 7 * weekOffset + int i"
      unfolding date [OF i] monday_def by (simp add: day_addDays day_mondayOf)
    have b: "w_booked (weekData ! i) =
          int (length (filter (\<lambda>r. a_status r = OFFICE \<and>
                 a_date r div msPerDay = w_date (weekData ! i) div msPerDay)
                 (attendanceRecord db)))"
      unfolding booked [OF i] date [OF i] bookingsOn_day att ..
    have u: "w_utilizationPercent (weekData ! i) =
          (if 0 < w_capacity (weekData ! i)
           then Math_round (toDouble (toDouble (of_int (w_booked (weekData ! i)) /
                                               of_int (w_capacity (weekData ! i))) * 100))
           else 0)"
      unfolding util [OF i] utilizationPercent_def ..
    have nonneg: "0 \<le> w_booked (weekData ! i)"
      unfolding b by simp
    have exact: "w_utilizationPercent (weekData ! i) =
             \<lfloor>100 * (rat_of_int (w_booked (weekData ! i)) /
                          rat_of_int (w_capacity (weekData ! i))) + 1 / 2\<rfloor>"
      if "0 < w_capacity (weekData ! i) \<and> w_booked (weekData ! i) \<le> 2 ^ 43 \<and>
         (200 * w_booked (weekData ! i) + w_capacity (weekData ! i)) mod
           (2 * w_capacity (weekData ! i)) \<noteq> 0"
    proof -
      from that have t: "0 < w_capacity (weekData ! i)" "w_booked (weekData ! i) \<le> 2 ^ 43"
        "(200 * w_booked (weekData ! i) + w_capacity (weekData ! i)) mod
           (2 * w_capacity (weekData ! i)) \<noteq> 0"
        by simp_all
      show ?thesis
        unfolding util [OF i] utilizationPercent_exact [OF t(1) nonneg t(2) t(3)]
          exact_round_half_up [OF t(1)] ..
    qed
    have nearest: "w_utilizationPercent (weekData ! i) =
             \<lfloor>100 * (rat_of_int (w_booked (weekData ! i)) /
                          rat_of_int (w_capacity (weekData ! i))) + 1 / 2\<rfloor> \<or>
           w_utilizationPercent (weekData ! i) =
             \<lfloor>100 * (rat_of_int (w_booked (weekData ! i)) /
                          rat_of_int (w_capacity (weekData ! i))) + 1 / 2\<rfloor> - 1"
      if "0 < w_capacity (weekData ! i) \<and> w_booked (weekData ! i) \<le> 2 ^ 43"
    proof -
      from that have t: "0 < w_capacity (weekData ! i)" "w_booked (weekData ! i) \<le> 2 ^ 43"
        by simp_all
      show ?thesis
        unfolding util [OF i] by (rule utilizationPercent_nearest [OF t(1) nonneg t(2)])
    qed
    have ex: "w_available (weekData ! i) = 0 \<and> w_isOverbooked (weekData ! i) \<and>
           w_utilizationPercent (weekData ! i) = 120"
      if "w_capacity (weekData ! i) = 10 \<and> w_booked (weekData ! i) = 12"
      using avail [OF i] over [OF i] util [OF i] that
      by (simp add: utilizationPercent_example)
    note ex' = ex [THEN conjunct1] ex [THEN conjunct2, THEN conjunct1]
      ex [THEN conjunct2, THEN conjunct2]
    show "w_day (weekData ! i) = dayNames ! i \<and>
        getDay (w_date (weekData ! i)) = int i + 1 \<and>
        w_date (weekData ! i) div msPerDay =
          today div msPerDay - (getDay today + 6) mod 7 + 7 * weekOffset + int i \<and>
        w_booked (weekData ! i) =
          int (length (filter (\<lambda>r. a_status r = OFFICE \<and>
                 a_date r div msPerDay = w_date (weekData ! i) div msPerDay)
                 (attendanceRecord db))) \<and>
        w_capacity (weekData ! i) =
          (case find (\<lambda>c. c_dayOfWeek c = dayNames ! i) (officeCapacity db') of
             None \<Rightarrow> 0 | Some c \<Rightarrow> c_capacity c) \<and>
        w_available (weekData ! i) =
          max (w_capacity (weekData ! i) - w_booked (weekData ! i)) 0 \<and>
        w_isOverbooked (weekData ! i) = (w_capacity (weekData ! i) < w_booked (weekData ! i)) \<and>
        w_utilizationPercent (weekData ! i) =
          (if 0 < w_capacity (weekData ! i)
           then Math_round (toDouble (toDouble (of_int (w_booked (weekData ! i)) /
                                               of_int (w_capacity (weekData ! i))) * 100))
           else 0) \<and>
        (0 < w_capacity (weekData ! i) \<and> w_booked (weekData ! i) \<le> 2 ^ 43 \<and>
         (200 * w_booked (weekData ! i) + w_capacity (weekData ! i)) mod
           (2 * w_capacity (weekData ! i)) \<noteq> 0 \<longrightarrow>
           w_utilizationPercent (weekData ! i) =
             \<lfloor>100 * (rat_of_int (w_booked (weekData ! i)) /
                          rat_of_int (w_capacity (weekData ! i))) + 1 / 2\<rfloor>) \<and>
        (0 < w_capacity (weekData ! i) \<and> w_booked (weekData ! i) \<le> 2 ^ 43 \<longrightarrow>
           w_utilizationPercent (weekData ! i) =
             \<lfloor>100 * (rat_of_int (w_booked (weekData ! i)) /
                          rat_of_int (w_capacity (weekData ! i))) + 1 / 2\<rfloor> \<or>
           w_utilizationPercent (weekData ! i) =
             \<lfloor>100 * (rat_of_int (w_booked (weekData ! i)) /
                          rat_of_int (w_capacity (weekData ! i))) + 1 / 2\<rfloor> - 1) \<and>
        (w_capacity (weekData ! i) = 10 \<and> w_booked (weekData ! i) = 12 \<longrightarrow>
           w_available (weekData ! i) = 0 \<and> w_isOverbooked (weekData ! i) \<and>
           w_utilizationPercent (weekData ! i) = 120)"
      by (intro conjI impI)
         (fact day [OF i], fact d, fact w, fact b, fact cap [OF i], fact avail [OF i],
          fact over [OF i], fact u, erule exact, erule nearest, erule ex' (1),
          erule ex' (2), erule ex' (3))
  qed
  have defaults: "officeCapacity db = [] \<longrightarrow> map w_capacity weekData = [20, 10, 50, 20, 50]"
    by (simp add: weekData_def db'_def upt_rec weekDayEntry_def Let_def
          officeCapacity_findMany_def find_sort_key defaultCapacities_def dayNames_def)
  show ?thesis
    by (rule exI [of _ weekData], rule exI [of _ db'], intro conjI)
       (fact res, fact db'_def, fact len, fact each, fact defaults)
qed

text \<open>
  The Chapter Lead reads the week of 2025-01-03 from a store without settings and with
  twelve office bookings on the Tuesday: the defaults appear, in the order of their day
  names, and the Tuesday has capacity 10, 12 booked, none available, overbooked, 120
  percent.
\<close>

theorem office_capacity_GET_week_witness:
  "\<exists>weekData db'.
     office_capacity_GET fullTuesday jan03 (Some ''c1@corp'') 0 =
       (Inr (weekData,
             [\<lparr>c_dayOfWeek = ''Friday'', c_capacity = 50\<rparr>,
              \<lparr>c_dayOfWeek = ''Monday'', c_capacity = 20\<rparr>,
              \<lparr>c_dayOfWeek = ''Thursday'', c_capacity = 20\<rparr>,
              \<lparr>c_dayOfWeek = ''Tuesday'', c_capacity = 10\<rparr>,
              \<lparr>c_dayOfWeek = ''Wednesday'', c_capacity = 50\<rparr>]), db') \<and>
     w_day (weekData ! 1) = ''Tuesday'' \<and>
     getDay (w_date (weekData ! 1)) = 2 \<and>
     w_date (weekData ! 1) div msPerDay = dec31 div msPerDay \<and>
     w_capacity (weekData ! 1) = 10 \<and>
     w_booked (weekData ! 1) = 12 \<and>
     w_available (weekData ! 1) = 0 \<and>
     w_isOverbooked (weekData ! 1) \<and>
     w_utilizationPercent (weekData ! 1) = 120 \<and>
     map w_capacity weekData = [20, 10, 50, 20, 50]"
proof -
  have h: "getUserFromRequest fullTuesday (Some ''c1@corp'') = Some chapterLead"
    by (simp add: getUserFromRequest_def user_findUnique_email_def fullTuesday_def
          tribeLead_def chapterLead_def)
  have r: "u_role chapterLead = CHAPTER_LEAD \<or> u_role chapterLead = TRIBE_LEAD"
    by (simp add: chapterLead_def)
  have empty: "officeCapacity fullTuesday = []"
    by (simp add: fullTuesday_def)
  have tuesday: "jan03 div msPerDay - (getDay jan03 + 6) mod 7 + 7 * 0 + int 1 =
      dec31 div msPerDay"
    by (simp add: jan03_def dec31_def getDay_def msPerDay_def)
  have seats: "filter (\<lambda>r. a_status r = OFFICE \<and> a_date r div msPerDay = dec31 div msPerDay)
      (map seat ks) = map seat ks" for ks
    by (induction ks) (simp_all add: seat_def)
  have twelve: "int (length (filter (\<lambda>r. a_status r = OFFICE \<and>
      a_date r div msPerDay = dec31 div msPerDay) (attendanceRecord fullTuesday))) = 12"
    unfolding fullTuesday_def by (simp add: seats del: upt_Suc)
  have ten: "(case find (\<lambda>c. c_dayOfWeek c = dayNames ! 1) defaultCapacities of
             None \<Rightarrow> 0 | Some c \<Rightarrow> c_capacity c) = 10"
    by (simp add: dayNames_def defaultCapacities_def)
  have name: "dayNames ! 1 = ''Tuesday''"
    by (simp add: dayNames_def)
  from office_capacity_GET_week [OF h r, of jan03 0]
  obtain weekData db' where
    res: "office_capacity_GET fullTuesday jan03 (Some ''c1@corp'') 0 =
       (Inr (weekData, officeCapacity_findMany db'), db')"
    and db': "db' = (if officeCapacity fullTuesday = []
          then fullTuesday\<lparr>officeCapacity := defaultCapacities\<rparr> else fullTuesday)"
    and each: "\<forall>i<5.
        w_day (weekData ! i) = dayNames ! i \<and>
        getDay (w_date (weekData ! i)) = int i + 1 \<and>
        w_date (weekData ! i) div msPerDay =
          jan03 div msPerDay - (getDay jan03 + 6) mod 7 + 7 * 0 + int i \<and>
        w_booked (weekData ! i) =
          int (length (filter (\<lambda>r. a_status r = OFFICE \<and>
                 a_date r div msPerDay = w_date (weekData ! i) div msPerDay)
                 (attendanceRecord fullTuesday))) \<and>
        w_capacity (weekData ! i) =
          (case find (\<lambda>c. c_dayOfWeek c = dayNames ! i) (officeCapacity db') of
             None \<Rightarrow> 0 | Some c \<Rightarrow> c_capacity c) \<and>
        w_available (weekData ! i) =
          max (w_capacity (weekData ! i) - w_booked (weekData ! i)) 0 \<and>
        w_isOverbooked (weekData ! i) = (w_capacity (weekData ! i) < w_booked (weekData ! i)) \<and>
        w_utilizationPercent (weekData ! i) =
          (if 0 < w_capacity (weekData ! i)
           then Math_round (toDouble (toDouble (of_int (w_booked (weekData ! i)) /
                                               of_int (w_capacity (weekData ! i))) * 100))
           else 0) \<and>
        (0 < w_capacity (weekData ! i) \<and> w_booked (weekData ! i) \<le> 2 ^ 43 \<and>
         (200 * w_booked (weekData ! i) + w_capacity (weekData ! i)) mod
           (2 * w_capacity (weekData ! i)) \<noteq> 0 \<longrightarrow>
           w_utilizationPercent (weekData ! i) =
             \<lfloor>100 * (rat_of_int (w_booked (weekData ! i)) /
                          rat_of_int (w_capacity (weekData ! i))) + 1 / 2\<rfloor>) \<and>
        (0 < w_capacity (weekData ! i) \<and> w_booked (weekData ! i) \<le> 2 ^ 43 \<longrightarrow>
           w_utilizationPercent (weekData ! i) =
             \<lfloor>100 * (rat_of_int (w_booked (weekData ! i)) /
                          rat_of_int (w_capacity (weekData ! i))) + 1 / 2\<rfloor> \<or>
           w_utilizationPercent (weekData ! i) =
             \<lfloor>100 * (rat_of_int (w_booked (weekData ! i)) /
                          rat_of_int (w_capacity (weekData ! i))) + 1 / 2\<rfloor> - 1) \<and>
        (w_capacity (weekData ! i) = 10 \<and> w_booked (weekData ! i) = 12 \<longrightarrow>
           w_available (weekData ! i) = 0 \<and> w_isOverbooked (weekData ! i) \<and>
           w_utilizationPercent (weekData ! i) = 120)"
    and dflt: "officeCapacity fullTuesday = [] \<longrightarrow>
        map w_capacity weekData = [20, 10, 50, 20, 50]"
    by (elim exE conjE) (rule that; assumption)
  have cap': "officeCapacity db' = defaultCapacities"
    using db' empty by simp
  have lt: "(1::nat) < 5"
    by simp
  note e1 = each [rule_format, OF lt]
  note e2 = e1 [THEN conjunct2]
  note e3 = e2 [THEN conjunct2]
  note e4 = e3 [THEN conjunct2]
  note e5 = e4 [THEN conjunct2]
  note e9 = e5 [THEN conjunct2, THEN conjunct2, THEN conjunct2, THEN conjunct2,
      THEN conjunct2, THEN conjunct2]
  note one = e1 [THEN conjunct1] e2 [THEN conjunct1] e3 [THEN conjunct1] e4 [THEN conjunct1]
    e5 [THEN conjunct1] e9
  have d: "w_date (weekData ! 1) div msPerDay = dec31 div msPerDay"
    using one(3) tuesday by simp
  have b: "w_booked (weekData ! 1) = 12"
    using one(4) twelve unfolding d by simp
  have c: "w_capacity (weekData ! 1) = 10"
    using one(5) ten unfolding cap' by simp
  have fm: "officeCapacity_findMany db' =
      [\<lparr>c_dayOfWeek = ''Friday'', c_capacity = 50\<rparr>,
       \<lparr>c_dayOfWeek = ''Monday'', c_capacity = 20\<rparr>,
       \<lparr>c_dayOfWeek = ''Thursday'', c_capacity = 20\<rparr>,
       \<lparr>c_dayOfWeek = ''Tuesday'', c_capacity = 10\<rparr>,
       \<lparr>c_dayOfWeek = ''Wednesday'', c_capacity = 50\<rparr>]"
    unfolding officeCapacity_findMany_def cap' by (rule sorted_defaults)
  from res one(1) name one(2) d b c one(6) dflt empty show ?thesis
    unfolding fm by auto
qed

text \<open>
  A halfway point: with the Tuesday set to capacity 40 and 23 office bookings on
  Tuesday 2024-12-31, the route reports 57 percent, where the exact quotient 57.5
  rounds to 58, upwards as well as to even.
\<close>

theorem utilization_rounding_counterexample:
  "office_capacity_GET halfTuesday jan03 (Some ''c1@corp'') 0 =
     (Inr ([\<lparr>w_day = ''Monday'', w_date = 1735516800000, w_capacity = 0, w_booked = 0,
              w_available = 0, w_isOverbooked = False, w_utilizationPercent = 0\<rparr>,
            \<lparr>w_day = ''Tuesday'', w_date = dec31, w_capacity = 40, w_booked = 23,
              w_available = 17, w_isOverbooked = False, w_utilizationPercent = 57\<rparr>,
            \<lparr>w_day = ''Wednesday'', w_date = jan01, w_capacity = 0, w_booked = 0,
              w_available = 0, w_isOverbooked = False, w_utilizationPercent = 0\<rparr>,
            \<lparr>w_day = ''Thursday'', w_date = jan02, w_capacity = 0, w_booked = 0,
              w_available = 0, w_isOverbooked = False, w_utilizationPercent = 0\<rparr>,
            \<lparr>w_day = ''Friday'', w_date = jan03, w_capacity = 0, w_booked = 0,
              w_available = 0, w_isOverbooked = False, w_utilizationPercent = 0\<rparr>],
           [\<lparr>c_dayOfWeek = ''Tuesday'', c_capacity = 40\<rparr>]),
      halfTuesday) \<and>
   \<lfloor>100 * (rat_of_int 23 / rat_of_int 40) + 1 / 2\<rfloor> = 58 \<and>
   roundHalfEven (100 * (rat_of_int 23 / rat_of_int 40)) = 58"
proof -
  have route: "office_capacity_GET halfTuesday jan03 (Some ''c1@corp'') 0 =
     (Inr ([\<lparr>w_day = ''Monday'', w_date = 1735516800000, w_capacity = 0, w_booked = 0,
              w_available = 0, w_isOverbooked = False, w_utilizationPercent = 0\<rparr>,
            \<lparr>w_day = ''Tuesday'', w_date = dec31, w_capacity = 40, w_booked = 23,
              w_available = 17, w_isOverbooked = False, w_utilizationPercent = 57\<rparr>,
            \<lparr>w_day = ''Wednesday'', w_date = jan01, w_capacity = 0, w_booked = 0,
              w_available = 0, w_isOverbooked = False, w_utilizationPercent = 0\<rparr>,
            \<lparr>w_day = ''Thursday'', w_date = jan02, w_capacity = 0, w_booked = 0,
              w_available = 0, w_isOverbooked = False, w_utilizationPercent = 0\<rparr>,
            \<lparr>w_day = ''Friday'', w_date = jan03, w_capacity = 0, w_booked = 0,
              w_available = 0, w_isOverbooked = False, w_utilizationPercent = 0\<rparr>],
           [\<lparr>c_dayOfWeek = ''Tuesday'', c_capacity = 40\<rparr>]),
      halfTuesday)"
    by code_simp
  have up: "\<lfloor>100 * (rat_of_int 23 / rat_of_int 40) + 1 / 2\<rfloor> = 58"
    by simp
  have even: "roundHalfEven (100 * (rat_of_int 23 / rat_of_int 40)) = 58"
    by code_simp
  from route up even show ?thesis
    by (intro conjI)
qed

end
